theory Spec2Isabelle
  imports Complex_Main
begin

section \<open>Python errors, numpy arrays and the random stream\<close>

text \<open>
  The samplers of \<^verbatim>\<open>regain/bayesian/sampling.py\<close> are modelled over the reals: a
  numpy float is a \<^typ>\<open>real\<close>, so rounding, overflow, \<^verbatim>\<open>inf\<close> and \<^verbatim>\<open>nan\<close> are outside
  the model. Every \<^verbatim>\<open>raise\<close> of the source, and every exception numpy raises on the
  paths the claims are about, is a value of the type \<open>error\<close>.
\<close>

datatype error =
    ValueError string
  | RuntimeError string
  | IndexError string
  | TypeError string

definition prior_msg :: string where
  "prior_msg = ''Prior must be given by a D-element sample or DxD chol(Sigma)''"

definition bug_msg :: string where
  "bug_msg = ''BUG DETECTED: Shrunk to current position and still not acceptable.''"

definition broadcast_msg :: string where
  "broadcast_msg = ''operands could not be broadcast together''"

definition unpack_msg :: string where
  "unpack_msg = ''wrong number of values to unpack''"

definition align_msg :: string where
  "align_msg = ''shapes not aligned''"

text \<open>
  A numpy array is its shape and its elements in row-major (C) order; the number of
  elements is the product of the shape.
\<close>

record ndarray =
  shape :: "nat list"
  data :: "real list"

definition np_size :: "ndarray \<Rightarrow> nat" where
  "np_size a = prod_list (shape a)"

definition wf_array :: "ndarray \<Rightarrow> bool" where
  "wf_array a = (length (data a) = prod_list (shape a))"

text \<open>All multi-indices of a shape, in row-major order, and the offset of one.\<close>

fun indices :: "nat list \<Rightarrow> nat list list" where
  "indices [] = [[]]"
| "indices (d # ds) = concat (map (\<lambda>i. map ((#) i) (indices ds)) [0..<d])"

definition flat_index :: "nat list \<Rightarrow> nat list \<Rightarrow> nat" where
  "flat_index sh idx = foldl (\<lambda>acc (d, i). acc * d + i) 0 (zip sh idx)"

definition item :: "ndarray \<Rightarrow> nat list \<Rightarrow> real" where
  "item a idx = data a ! flat_index (shape a) idx"

text \<open>
  numpy's broadcasting rule: the shapes are aligned at their last axis, and two
  lengths are compatible when they are equal or one of them is 1.
\<close>

fun broadcast_dims :: "nat list \<Rightarrow> nat list \<Rightarrow> nat list option" where
  "broadcast_dims [] ys = Some ys"
| "broadcast_dims (x # xs) [] = Some (x # xs)"
| "broadcast_dims (x # xs) (y # ys) =
     (if x = y \<or> y = 1 then map_option ((#) x) (broadcast_dims xs ys)
      else if x = 1 then map_option ((#) y) (broadcast_dims xs ys)
      else None)"

definition broadcast_shapes :: "nat list \<Rightarrow> nat list \<Rightarrow> nat list option" where
  "broadcast_shapes s t = map_option rev (broadcast_dims (rev s) (rev t))"

definition bidx :: "nat list \<Rightarrow> nat list \<Rightarrow> nat list" where
  "bidx sh idx =
     map (\<lambda>(d, i). if d = 1 then 0 else i) (zip sh (drop (length idx - length sh) idx))"

definition np_binop :: "(real \<Rightarrow> real \<Rightarrow> real) \<Rightarrow> ndarray \<Rightarrow> ndarray \<Rightarrow> error + ndarray" where
  "np_binop f a b =
     (case broadcast_shapes (shape a) (shape b) of
        None \<Rightarrow> Inl (ValueError broadcast_msg)
      | Some sh \<Rightarrow>
          Inr \<lparr>shape = sh,
               data = map (\<lambda>idx. f (item a (bidx (shape a) idx)) (item b (bidx (shape b) idx)))
                          (indices sh)\<rparr>)"

definition np_scale :: "ndarray \<Rightarrow> real \<Rightarrow> ndarray" where
  "np_scale a c = \<lparr>shape = shape a, data = map (\<lambda>x. x * c) (data a)\<rparr>"

text \<open>\<^verbatim>\<open>a.T\<close> reverses the axes.\<close>

definition np_T :: "ndarray \<Rightarrow> ndarray" where
  "np_T a = \<lparr>shape = rev (shape a),
             data = map (\<lambda>idx. item a (rev idx)) (indices (rev (shape a)))\<rparr>"

text \<open>Iterating over an array yields its sub-arrays along the first axis.\<close>

definition subarrays :: "ndarray \<Rightarrow> error + ndarray list" where
  "subarrays a =
     (case shape a of
        [] \<Rightarrow> Inl (TypeError ''iteration over a 0-d array'')
      | d # ds \<Rightarrow>
          Inr (map (\<lambda>i. \<lparr>shape = ds,
                          data = take (prod_list ds) (drop (i * prod_list ds) (data a))\<rparr>)
                   [0..<d]))"

text \<open>
  \<^verbatim>\<open>a.dot(b)\<close>: a scalar operand multiplies; a 1-d \<open>b\<close> is summed against the last axis
  of \<open>a\<close>; otherwise the last axis of \<open>a\<close> is summed against the last but one of \<open>b\<close>.
\<close>

definition np_dot :: "ndarray \<Rightarrow> ndarray \<Rightarrow> error + ndarray" where
  "np_dot a b =
     (if shape a = [] then Inr (np_scale b (hd (data a)))
      else if shape b = [] then Inr (np_scale a (hd (data b)))
      else
        let k = last (shape a);
            r = length (shape b);
            kb = (if r = 1 then hd (shape b) else shape b ! (r - 2));
            pre = take (r - 2) (shape b);
            lst = (if r = 1 then [] else [last (shape b)])
        in if k \<noteq> kb then Inl (ValueError align_msg)
           else Inr \<lparr>shape = butlast (shape a) @ pre @ lst,
                     data = concat (map (\<lambda>ia. concat (map (\<lambda>ib. map (\<lambda>m.
                              (\<Sum>j\<leftarrow>[0..<k]. item a (ia @ [j]) * item b (ib @ [j] @ m)))
                              (indices lst)) (indices pre))) (indices (butlast (shape a))))\<rparr>)"

text \<open>\<^verbatim>\<open>np.array([...])\<close> of arrays of one shape stacks them along a new first axis.\<close>

definition np_array :: "ndarray list \<Rightarrow> ndarray" where
  "np_array as =
     (case as of
        [] \<Rightarrow> \<lparr>shape = [0], data = []\<rparr>
      | a # _ \<Rightarrow> \<lparr>shape = length as # shape a, data = concat (map data as)\<rparr>)"

definition np_reshape :: "ndarray \<Rightarrow> nat list \<Rightarrow> error + ndarray" where
  "np_reshape a sh =
     (if prod_list sh = np_size a then Inr \<lparr>shape = sh, data = data a\<rparr>
      else Inl (ValueError ''cannot reshape array''))"

text \<open>A list comprehension whose body can raise stops at the first exception.\<close>

fun sequence_results :: "(error + 'a) list \<Rightarrow> error + 'a list" where
  "sequence_results [] = Inr []"
| "sequence_results (r # rs) =
     (case r of
        Inl e \<Rightarrow> Inl e
      | Inr x \<Rightarrow> (case sequence_results rs of Inl e \<Rightarrow> Inl e | Inr xs \<Rightarrow> Inr (x # xs)))"

text \<open>The unpacking \<^verbatim>\<open>v, p, N = initial_theta.shape\<close> raises unless the rank is 3.\<close>

fun unpack3 :: "nat list \<Rightarrow> error + (nat \<times> nat \<times> nat)" where
  "unpack3 [v, p, N] = Inr (v, p, N)"
| "unpack3 _ = Inl (ValueError unpack_msg)"

text \<open>
  The global generator \<^verbatim>\<open>np.random\<close> is an explicit state: two tapes of draws (the
  uniform draws of \<^verbatim>\<open>np.random.uniform()\<close>, and the standard normal draws behind
  \<^verbatim>\<open>np.random.normal\<close> and \<^verbatim>\<open>np.random.lognormal\<close>) and the number of draws taken from
  each. A call has made no random draw exactly when both counters are unchanged.
\<close>

record rng =
  uniforms :: "nat \<Rightarrow> real"
  normals :: "nat \<Rightarrow> real"
  n_uniform :: nat
  n_normal :: nat

definition random_uniform :: "rng \<Rightarrow> real \<times> rng" where
  "random_uniform g = (uniforms g (n_uniform g), g\<lparr>n_uniform := Suc (n_uniform g)\<rparr>)"

definition standard_normal :: "rng \<Rightarrow> real \<times> rng" where
  "standard_normal g = (normals g (n_normal g), g\<lparr>n_normal := Suc (n_normal g)\<rparr>)"

definition random_normal_size :: "nat \<Rightarrow> rng \<Rightarrow> ndarray \<times> rng" where
  "random_normal_size D g =
     (\<lparr>shape = [D], data = map (normals g) [n_normal g..<n_normal g + D]\<rparr>,
      g\<lparr>n_normal := n_normal g + D\<rparr>)"

text \<open>The generator after \<open>k\<close> further normal draws and \<open>k\<close> further uniform draws.\<close>

definition advance :: "rng \<Rightarrow> nat \<Rightarrow> rng" where
  "advance g k = g\<lparr>n_normal := n_normal g + k, n_uniform := n_uniform g + k\<rparr>"

section \<open>The collaborators that are not in the source tree\<close>

text \<open>
  \<^verbatim>\<open>regain.bayesian.stats\<close> and \<^verbatim>\<open>regain.bayesian.wishart_process_\<close> are imported by
  the sampling module; their functions are parameters of the model, taken as pure and
  total. \<^verbatim>\<open>GWP_construct\<close> has the optional argument \<^verbatim>\<open>uut\<close>.
\<close>

record regain_lib =
  log_lik_frob :: "ndarray \<Rightarrow> ndarray \<Rightarrow> real \<Rightarrow> real"
  GWP_construct :: "ndarray \<Rightarrow> ndarray \<Rightarrow> ndarray option \<Rightarrow> ndarray"
  log_likelihood_normal :: "real \<Rightarrow> real \<Rightarrow> real \<Rightarrow> real"
  lognormal_logpdf :: "real \<Rightarrow> real \<Rightarrow> real \<Rightarrow> real"
  lognormal_pdf :: "real \<Rightarrow> real \<Rightarrow> real \<Rightarrow> real"
  lognstat :: "real \<Rightarrow> real \<Rightarrow> real \<times> real"

section \<open>elliptical_slice\<close>

text \<open>
  The state bundle \<^verbatim>\<open>xx\<close> of the source, read through \<^verbatim>\<open>xx.xx\<close>, \<^verbatim>\<open>xx.V\<close>, \<^verbatim>\<open>xx.S\<close>,
  \<^verbatim>\<open>xx.L\<close> and written through \<^verbatim>\<open>xx['xx']\<close>, \<^verbatim>\<open>xx['uut']\<close>, \<^verbatim>\<open>xx['V']\<close>.
\<close>

record gwp_state =
  xx_xx :: ndarray
  xx_uut :: ndarray
  xx_V :: ndarray
  xx_S :: ndarray
  xx_L :: ndarray

text \<open>
  Line 94: \<^verbatim>\<open>np.real(initial_theta * np.cos(phi) + nu * np.sin(phi))\<close>. The arrays of the
  model have real entries, on which \<^verbatim>\<open>np.real\<close> is the identity.
\<close>

definition ellipse_point :: "ndarray \<Rightarrow> ndarray \<Rightarrow> real \<Rightarrow> error + ndarray" where
  "ellipse_point initial_theta nu phi =
     np_binop (+) (np_scale initial_theta (cos phi)) (np_scale nu (sin phi))"

text \<open>Line 95: \<^verbatim>\<open>np.array([u.dot(u.T) for u in xx_proposal.T])\<close>.\<close>

definition outer_products :: "ndarray \<Rightarrow> error + ndarray" where
  "outer_products xx_proposal =
     (case subarrays (np_T xx_proposal) of
        Inl e \<Rightarrow> Inl e
      | Inr us \<Rightarrow>
          (case sequence_results (map (\<lambda>u. np_dot u (np_T u)) us) of
             Inl e \<Rightarrow> Inl e
           | Inr ms \<Rightarrow> Inr (np_array ms)))"

text \<open>
  Lines 64 to 73: the prior is taken as the sample \<open>nu\<close> when it has \<open>D\<close> elements;
  otherwise it must have the shape \<open>(D, D)\<close>, and \<open>nu\<close> is drawn through it.
\<close>

definition draw_nu :: "ndarray \<Rightarrow> ndarray \<Rightarrow> nat \<Rightarrow> rng \<Rightarrow> (error + ndarray) \<times> rng" where
  "draw_nu initial_theta prior D g =
     (if np_size prior = D then (Inr prior, g)
      else if shape prior \<noteq> [D, D] then (Inl (ValueError prior_msg), g)
      else
        (case random_normal_size D g of
           (z, g') \<Rightarrow>
             (case np_dot (np_T prior) z of
                Inl e \<Rightarrow> (Inl e, g')
              | Inr y \<Rightarrow> (np_reshape y (shape initial_theta), g'))))"

text \<open>
  Lines 53 to 88, everything before the loop: the ellipse \<open>nu\<close>, the slice threshold
  \<open>hh\<close>, and the first angle with its bracket. \<^verbatim>\<open>np.log\<close> of a uniform draw that is
  exactly 0 is \<^verbatim>\<open>-inf\<close>, which the model does not have.
\<close>

record ellipse =
  e_nu :: ndarray
  e_hh :: real
  e_phi :: real
  e_phi_min :: real
  e_phi_max :: real

definition start_log_like :: "regain_lib \<Rightarrow> gwp_state \<Rightarrow> real option \<Rightarrow> real \<Rightarrow> real" where
  "start_log_like lib st cur_log_like variance =
     (case cur_log_like of
        None \<Rightarrow> log_lik_frob lib (xx_S st) (xx_V st) variance
      | Some c \<Rightarrow> c)"

definition ellipse_setup ::
  "regain_lib \<Rightarrow> gwp_state \<Rightarrow> ndarray \<Rightarrow> real option \<Rightarrow> real \<Rightarrow> real \<Rightarrow> rng
     \<Rightarrow> (error + ellipse) \<times> rng" where
  "ellipse_setup lib st prior cur_log_like variance angle_range g =
     (let initial_theta = xx_xx st
      in case unpack3 (shape initial_theta) of
           Inl e \<Rightarrow> (Inl e, g)
         | Inr (v, p, N) \<Rightarrow>
             (let D = v * p * N;
                  cur = start_log_like lib st cur_log_like variance
              in case draw_nu initial_theta prior D g of
                   (Inl e, g1) \<Rightarrow> (Inl e, g1)
                 | (Inr nu, g1) \<Rightarrow>
                     (case random_uniform g1 of
                        (u, g2) \<Rightarrow>
                          (let hh = 0.001 * ln u + cur
                           in if angle_range \<le> 0 then
                                (case random_uniform g2 of
                                   (u1, g3) \<Rightarrow>
                                     (let phi = u1 * 2 * pi
                                      in (Inr \<lparr>e_nu = nu, e_hh = hh, e_phi = phi,
                                               e_phi_min = phi - 2 * pi, e_phi_max = phi\<rparr>,
                                          g3)))
                              else
                                (case random_uniform g2 of
                                   (u1, g3) \<Rightarrow>
                                     (let phi_min = - angle_range * u1;
                                          phi_max = phi_min + angle_range
                                      in case random_uniform g3 of
                                           (u2, g4) \<Rightarrow>
                                             (Inr \<lparr>e_nu = nu, e_hh = hh,
                                                   e_phi = u2 * (phi_max - phi_min) + phi_min,
                                                   e_phi_min = phi_min, e_phi_max = phi_max\<rparr>,
                                              g4)))))))"

text \<open>
  Lines 90 to 117, the loop \<^verbatim>\<open>for iteration_ in range(max_iter)\<close> with its
  \<^verbatim>\<open>break\<close>, its \<^verbatim>\<open>raise\<close> and its \<^verbatim>\<open>else\<close> clause. The loop ends in one of three
  ways: by \<^verbatim>\<open>break\<close> at iteration \<open>iteration\<close> with the accepted proposal, by
  running out of iterations (the \<^verbatim>\<open>else\<close> clause sets \<^verbatim>\<open>error = True\<close>), or by an
  exception.
\<close>

datatype loop_exit =
    Broke nat ndarray ndarray ndarray real
  | Exhausted
  | Raised error

fun slice_loop ::
  "regain_lib \<Rightarrow> ndarray \<Rightarrow> ndarray \<Rightarrow> ndarray \<Rightarrow> ndarray \<Rightarrow> real \<Rightarrow> real \<Rightarrow> nat list
     \<Rightarrow> real \<Rightarrow> real \<Rightarrow> real \<Rightarrow> rng \<Rightarrow> loop_exit \<times> rng" where
  "slice_loop lib initial_theta nu S L variance hh [] phi phi_min phi_max g = (Exhausted, g)"
| "slice_loop lib initial_theta nu S L variance hh (iteration # rest) phi phi_min phi_max g =
     (case ellipse_point initial_theta nu phi of
        Inl e \<Rightarrow> (Raised e, g)
      | Inr xx_proposal \<Rightarrow>
          (case outer_products xx_proposal of
             Inl e \<Rightarrow> (Raised e, g)
           | Inr uut \<Rightarrow>
               (let V = GWP_construct lib xx_proposal L (Some uut);
                    cur_log_like = log_lik_frob lib S V variance
                in if cur_log_like > hh then
                     (Broke iteration xx_proposal uut V cur_log_like, g)
                   else if phi > 0 then
                     (case random_uniform g of
                        (u, g') \<Rightarrow>
                          slice_loop lib initial_theta nu S L variance hh rest
                            (u * (phi - phi_min) + phi_min) phi_min phi g')
                   else if phi < 0 then
                     (case random_uniform g of
                        (u, g') \<Rightarrow>
                          slice_loop lib initial_theta nu S L variance hh rest
                            (u * (phi_max - phi) + phi) phi phi_max g')
                   else (Raised (RuntimeError bug_msg), g))))"

text \<open>
  The whole call. The Python function mutates the bundle in place and returns it with
  a log-likelihood, or raises; the model returns what the call raised or the
  log-likelihood it returned, the bundle and the generator as the call left them, and
  how the loop ended (\<open>None\<close> when the loop was never reached).
\<close>

record call_result =
  outcome :: "error + real option"
  state_after :: gwp_state
  rng_after :: rng
  loop_end :: "loop_exit option"

definition elliptical_slice ::
  "regain_lib \<Rightarrow> gwp_state \<Rightarrow> ndarray \<Rightarrow> real option \<Rightarrow> real \<Rightarrow> real \<Rightarrow> int \<Rightarrow> rng
     \<Rightarrow> call_result" where
  "elliptical_slice lib st prior cur_log_like variance angle_range max_iter g =
     (case ellipse_setup lib st prior cur_log_like variance angle_range g of
        (Inl e, g1) \<Rightarrow>
          \<lparr>outcome = Inl e, state_after = st, rng_after = g1, loop_end = None\<rparr>
      | (Inr el, g1) \<Rightarrow>
          (case slice_loop lib (xx_xx st) (e_nu el) (xx_S st) (xx_L st) variance (e_hh el)
                  [0..<nat max_iter] (e_phi el) (e_phi_min el) (e_phi_max el) g1 of
             (Broke it xx_proposal uut V ll, g2) \<Rightarrow>
               \<lparr>outcome = Inr (Some ll),
                state_after = st\<lparr>xx_uut := uut, xx_xx := xx_proposal, xx_V := V\<rparr>,
                rng_after = g2,
                loop_end = Some (Broke it xx_proposal uut V ll)\<rparr>
           | (Exhausted, g2) \<Rightarrow>
               \<lparr>outcome = Inr cur_log_like,
                state_after = st\<lparr>xx_xx := xx_xx st\<rparr>,
                rng_after = g2,
                loop_end = Some Exhausted\<rparr>
           | (Raised e, g2) \<Rightarrow>
               \<lparr>outcome = Inl e, state_after = st, rng_after = g2,
                loop_end = Some (Raised e)\<rparr>))"

section \<open>sample_hyper_kernel and logpunorm\<close>

text \<open>
  \<^verbatim>\<open>scipy.linalg.pinvh\<close> and \<^verbatim>\<open>sklearn.utils.extmath.fast_logdet\<close> are numerical
  library routines, parameters of the model; the kernel \<^verbatim>\<open>kern\<close> is an argument of
  the source functions.
\<close>

record linalg_lib =
  pinvh :: "ndarray \<Rightarrow> ndarray"
  fast_logdet :: "ndarray \<Rightarrow> real"

text \<open>\<^verbatim>\<open>t[:, None]\<close> inserts an axis of length 1 after the first axis.\<close>

definition column_of :: "ndarray \<Rightarrow> error + ndarray" where
  "column_of t =
     (case shape t of
        [] \<Rightarrow> Inl (IndexError ''too many indices for array'')
      | d # ds \<Rightarrow> Inr \<lparr>shape = d # 1 # ds, data = data t\<rparr>)"

text \<open>
  \<^verbatim>\<open>np.tensordot(umat, umat, axes=([1, 0], [1, 0]))\<close> on an array of shape
  \<open>(v, p, n)\<close>: the first two axes are summed out.
\<close>

definition tensordot_10 :: "nat \<Rightarrow> nat \<Rightarrow> nat \<Rightarrow> ndarray \<Rightarrow> ndarray" where
  "tensordot_10 v p n umat =
     \<lparr>shape = [n, n],
      data = concat (map (\<lambda>k. map (\<lambda>k'.
               (\<Sum>j\<leftarrow>[0..<p]. \<Sum>i\<leftarrow>[0..<v]. item umat [i, j, k] * item umat [i, j, k']))
               [0..<n]) [0..<n])\<rparr>"

definition logpunorm ::
  "regain_lib \<Rightarrow> linalg_lib \<Rightarrow> real \<Rightarrow> ndarray \<Rightarrow> ndarray \<Rightarrow> (ndarray \<Rightarrow> real \<Rightarrow> ndarray)
     \<Rightarrow> real \<Rightarrow> real \<Rightarrow> error + real" where
  "logpunorm lib la inverse_width t umat kern mean_prior var_prior =
     (case column_of t of
        Inl e \<Rightarrow> Inl e
      | Inr tcol \<Rightarrow>
          (let K = kern tcol inverse_width;
               k_inverse = pinvh la K
           in case unpack3 (shape umat) of
                Inl e \<Rightarrow> Inl e
              | Inr (v, p, n) \<Rightarrow>
                  (let F = tensordot_10 v p n umat
                   in case np_binop (*) F k_inverse of
                        Inl e \<Rightarrow> Inl e
                      | Inr Fk \<Rightarrow>
                          (let logpugl = real v * real p * fast_logdet la K + sum_list (data Fk);
                               logpugl1 = logpugl + real (np_size umat) * ln (2 * pi);
                               logpugl2 = logpugl1 * (- 0.5);
                               (mu_prior, sigma_prior) = lognstat lib mean_prior var_prior;
                               logp_prior = lognormal_logpdf lib inverse_width mu_prior sigma_prior
                           in Inr (logpugl2 + logp_prior)))))"

text \<open>
  \<^verbatim>\<open>np.random.lognormal(mu, sigma)\<close> is the exponential of a normal draw; numpy
  refuses a negative \<open>sigma\<close>.
\<close>

definition random_lognormal :: "real \<Rightarrow> real \<Rightarrow> rng \<Rightarrow> (error + real) \<times> rng" where
  "random_lognormal mu sigma g =
     (if sigma < 0 then (Inl (ValueError ''sigma < 0''), g)
      else (case standard_normal g of (z, g') \<Rightarrow> (Inr (exp (mu + sigma * z)), g')))"

definition sample_hyper_kernel ::
  "regain_lib \<Rightarrow> linalg_lib \<Rightarrow> real \<Rightarrow> real \<Rightarrow> ndarray \<Rightarrow> ndarray
     \<Rightarrow> (ndarray \<Rightarrow> real \<Rightarrow> ndarray) \<Rightarrow> real \<Rightarrow> real \<Rightarrow> rng
     \<Rightarrow> (error + real \<times> bool) \<times> rng" where
  "sample_hyper_kernel lib la initial_theta var_proposal t u kern mean_prior var_prior g =
     (case lognstat lib initial_theta var_proposal of
        (mu, sigma) \<Rightarrow>
          (case random_lognormal mu sigma g of
             (Inl e, g1) \<Rightarrow> (Inl e, g1)
           | (Inr proposal, g1) \<Rightarrow>
               (case logpunorm lib la proposal t u kern mean_prior var_prior of
                  Inl e \<Rightarrow> (Inl e, g1)
                | Inr logpzast \<Rightarrow>
                    (let qzastztau = lognormal_pdf lib proposal mu sigma
                     in case lognstat lib proposal var_proposal of
                          (mu', sigma') \<Rightarrow>
                            (case logpunorm lib la initial_theta t u kern mean_prior var_prior of
                               Inl e \<Rightarrow> (Inl e, g1)
                             | Inr logpztau \<Rightarrow>
                                 (let qztauzast = lognormal_pdf lib initial_theta mu' sigma';
                                      acceptance_proba =
                                        min 1 (exp (logpzast - logpztau) * (qztauzast / qzastztau))
                                  in case random_uniform g1 of
                                       (r, g2) \<Rightarrow>
                                         (let accept = (r < acceptance_proba);
                                              sample = (if accept then proposal else initial_theta)
                                          in (Inr (sample, accept), g2))))))))"

section \<open>sample_L2, _sample_ell_comp and logp_ell_posterior\<close>

text \<open>
  The vector of free elements of the factor is a one-dimensional array, a list of
  reals; reading it out of range raises.
\<close>

definition py_index :: "real list \<Rightarrow> nat \<Rightarrow> error + real" where
  "py_index xs i =
     (if i < length xs then Inr (xs ! i) else Inl (IndexError ''index out of bounds''))"

text \<open>\<^verbatim>\<open>np.zeros_like(S[..., 0])\<close>: the shape of \<open>S\<close> without its last axis.\<close>

definition zeros_like_last0 :: "ndarray \<Rightarrow> error + ndarray" where
  "zeros_like_last0 S =
     (if shape S = [] then Inl (IndexError ''too many indices for array'')
      else if last (shape S) = 0 then Inl (IndexError ''index 0 is out of bounds'')
      else Inr \<lparr>shape = butlast (shape S),
                data = replicate (prod_list (butlast (shape S))) 0\<rparr>)"

text \<open>
  \<^verbatim>\<open>L[np.tril_indices_from(L)] = Lv\<close>: the positions on and below the diagonal, row
  by row, receive the elements of \<open>Lv\<close>; a one-element \<open>Lv\<close> is broadcast.
\<close>

definition tril_positions :: "nat \<Rightarrow> nat \<Rightarrow> (nat \<times> nat) list" where
  "tril_positions n m = concat (map (\<lambda>r. map (\<lambda>c. (r, c)) [0..<min (Suc r) m]) [0..<n])"

definition tril_assign :: "ndarray \<Rightarrow> real list \<Rightarrow> error + ndarray" where
  "tril_assign L Lv =
     (case shape L of
        [n, m] \<Rightarrow>
          (let pos = tril_positions n m;
               vals = (if length Lv = length pos then Inr Lv
                       else if length Lv = 1 then Inr (replicate (length pos) (hd Lv))
                       else Inl (ValueError ''shape mismatch''))
           in case vals of
                Inl e \<Rightarrow> Inl e
              | Inr xs \<Rightarrow>
                  Inr \<lparr>shape = [n, m],
                       data = foldl (\<lambda>d ((r, c), x). d[r * m + c := x]) (data L) (zip pos xs)\<rparr>)
      | _ \<Rightarrow> Inl (ValueError ''input array must be 2-d''))"

definition logp_ell_posterior ::
  "regain_lib \<Rightarrow> real list \<Rightarrow> nat \<Rightarrow> ndarray \<Rightarrow> ndarray \<Rightarrow> real \<Rightarrow> real \<Rightarrow> real
     \<Rightarrow> ndarray option \<Rightarrow> error + real" where
  "logp_ell_posterior lib Lv i S umat var_err mu_prior var_prior uut =
     (case zeros_like_last0 S of
        Inl e \<Rightarrow> Inl e
      | Inr L0 \<Rightarrow>
          (case tril_assign L0 Lv of
             Inl e \<Rightarrow> Inl e
           | Inr L \<Rightarrow>
               (let D = GWP_construct lib umat L uut;
                    logpS = log_lik_frob lib S D var_err
                in case py_index Lv i of
                     Inl e \<Rightarrow> Inl e
                   | Inr Lvi \<Rightarrow>
                       (let logpL = log_likelihood_normal lib Lvi mu_prior var_prior
                        in Inr (logpS + logpL)))))"

text \<open>
  \<^verbatim>\<open>np.random.normal(loc, scale)\<close> and \<^verbatim>\<open>scipy.stats.norm.pdf(x, loc, scale)\<close>. numpy
  refuses a negative scale. The square root of a negative variance and the density at
  scale 0 are \<^verbatim>\<open>nan\<close> in numpy; the model is meant for positive variances.
\<close>

definition random_normal :: "real \<Rightarrow> real \<Rightarrow> rng \<Rightarrow> (error + real) \<times> rng" where
  "random_normal loc scale g =
     (if scale < 0 then (Inl (ValueError ''scale < 0''), g)
      else (case standard_normal g of (z, g') \<Rightarrow> (Inr (loc + scale * z), g')))"

definition norm_pdf :: "real \<Rightarrow> real \<Rightarrow> real \<Rightarrow> real" where
  "norm_pdf x loc scale = exp (- ((x - loc) / scale)\<^sup>2 / 2) / sqrt (2 * pi) / scale"

definition sample_ell_comp ::
  "regain_lib \<Rightarrow> real list \<Rightarrow> nat \<Rightarrow> real \<Rightarrow> ndarray \<Rightarrow> ndarray \<Rightarrow> real \<Rightarrow> real \<Rightarrow> real
     \<Rightarrow> ndarray option \<Rightarrow> rng \<Rightarrow> (error + real) \<times> rng" where
  "sample_ell_comp lib Ltaug i sigma2Lprop S umat var_err mu_prior var_prior uut g =
     (case py_index Ltaug i of
        Inl e \<Rightarrow> (Inl e, g)
      | Inr Ltau \<Rightarrow>
          (case random_normal Ltau (sqrt sigma2Lprop) g of
             (Inl e, g1) \<Rightarrow> (Inl e, g1)
           | (Inr Last, g1) \<Rightarrow>
               (let Lastg = Ltaug[i := Last]
                in case logp_ell_posterior lib Lastg i S umat var_err mu_prior var_prior uut of
                     Inl e \<Rightarrow> (Inl e, g1)
                   | Inr logpLast \<Rightarrow>
                       (let q_ast_tau = norm_pdf Last Ltau (sqrt sigma2Lprop)
                        in case logp_ell_posterior lib Ltaug i S umat var_err mu_prior var_prior uut of
                             Inl e \<Rightarrow> (Inl e, g1)
                           | Inr logpLtau \<Rightarrow>
                               (let q_tau_ast = norm_pdf Ltau Last (sqrt sigma2Lprop);
                                    A = min 1 (exp (logpLast - logpLtau) * (q_tau_ast / q_ast_tau))
                                in case random_uniform g1 of
                                     (r, g2) \<Rightarrow> (Inr (if r < A then Last else Ltau), g2))))))"

text \<open>
  Lines 230 to 238 of \<^verbatim>\<open>sample_L2\<close>: the loop
  \<^verbatim>\<open>for i in range(free_elements)\<close>, which writes \<^verbatim>\<open>L_proposal[i]\<close> and then
  \<^verbatim>\<open>Ltau[i]\<close>. The argument \<^verbatim>\<open>Ltau\<close> is mutated in place, so the model returns it
  too.
\<close>

fun L2_loop ::
  "regain_lib \<Rightarrow> real list \<Rightarrow> ndarray \<Rightarrow> ndarray \<Rightarrow> real \<Rightarrow> real list \<Rightarrow> real list
     \<Rightarrow> ndarray option \<Rightarrow> nat list \<Rightarrow> real list \<Rightarrow> real list \<Rightarrow> rng
     \<Rightarrow> error option \<times> real list \<times> real list \<times> rng" where
  "L2_loop lib var_proposal S umat var_err mu_prior var_prior uut [] Ltau L_proposal g =
     (None, Ltau, L_proposal, g)"
| "L2_loop lib var_proposal S umat var_err mu_prior var_prior uut (i # rest) Ltau L_proposal g =
     (case py_index var_proposal i of
        Inl e \<Rightarrow> (Some e, Ltau, L_proposal, g)
      | Inr vp \<Rightarrow>
          (case py_index mu_prior i of
             Inl e \<Rightarrow> (Some e, Ltau, L_proposal, g)
           | Inr mp \<Rightarrow>
               (case py_index var_prior i of
                  Inl e \<Rightarrow> (Some e, Ltau, L_proposal, g)
                | Inr vr \<Rightarrow>
                    (case sample_ell_comp lib Ltau i vp S umat var_err mp vr uut g of
                       (Inl e, g') \<Rightarrow> (Some e, Ltau, L_proposal, g')
                     | (Inr x, g') \<Rightarrow>
                         L2_loop lib var_proposal S umat var_err mu_prior var_prior uut rest
                           (Ltau[i := x]) (L_proposal[i := x]) g'))))"

record L2_result =
  returned :: "error + real list"
  Ltau_after :: "real list"
  gen_after :: rng

definition sample_L2 ::
  "regain_lib \<Rightarrow> real list \<Rightarrow> real list \<Rightarrow> ndarray \<Rightarrow> ndarray \<Rightarrow> real \<Rightarrow> real list
     \<Rightarrow> real list \<Rightarrow> ndarray option \<Rightarrow> rng \<Rightarrow> L2_result" where
  "sample_L2 lib Ltau var_proposal S umat var_err mu_prior var_prior uut g =
     (let free_elements = length Ltau;
          L_proposal = replicate free_elements 0
      in case L2_loop lib var_proposal S umat var_err mu_prior var_prior uut
                [0..<free_elements] Ltau L_proposal g of
           (Some e, Ltau', L_proposal', g') \<Rightarrow>
             \<lparr>returned = Inl e, Ltau_after = Ltau', gen_after = g'\<rparr>
         | (None, Ltau', L_proposal', g') \<Rightarrow>
             \<lparr>returned = Inr L_proposal', Ltau_after = Ltau', gen_after = g'\<rparr>)"

section \<open>Concrete inputs for the runs below\<close>

text \<open>
  The theorems below hold for every instance of the collaborators. The concrete runs
  need one: a sum-of-squares log-likelihood, a field that is the cross-product tensor
  itself, and simple log-normal helpers. The two tapes of the generator are constant.
\<close>

definition np_full :: "nat list \<Rightarrow> real \<Rightarrow> ndarray" where
  "np_full sh c = \<lparr>shape = sh, data = replicate (prod_list sh) c\<rparr>"

definition demo_log_lik :: "ndarray \<Rightarrow> ndarray \<Rightarrow> real \<Rightarrow> real" where
  "demo_log_lik S V variance =
     - (\<Sum>(s, v)\<leftarrow>zip (data S) (data V). (s - v)\<^sup>2) / (2 * variance)"

definition demo_GWP :: "ndarray \<Rightarrow> ndarray \<Rightarrow> ndarray option \<Rightarrow> ndarray" where
  "demo_GWP umat L uut = (case uut of None \<Rightarrow> umat | Some w \<Rightarrow> w)"

definition demo_lognstat :: "real \<Rightarrow> real \<Rightarrow> real \<times> real" where
  "demo_lognstat m v = (ln m, sqrt v)"

definition demo_normal_loglik :: "real \<Rightarrow> real \<Rightarrow> real \<Rightarrow> real" where
  "demo_normal_loglik x m v = - (x - m)\<^sup>2 / (2 * v)"

definition demo_lognormal_logpdf :: "real \<Rightarrow> real \<Rightarrow> real \<Rightarrow> real" where
  "demo_lognormal_logpdf x mu sigma = - (ln x - mu)\<^sup>2 / 2"

definition demo_lognormal_pdf :: "real \<Rightarrow> real \<Rightarrow> real \<Rightarrow> real" where
  "demo_lognormal_pdf x mu sigma = exp (- (ln x - mu)\<^sup>2 / 2) / x"

definition demo_lib :: regain_lib where
  "demo_lib =
     \<lparr>log_lik_frob = demo_log_lik, GWP_construct = demo_GWP,
      log_likelihood_normal = demo_normal_loglik,
      lognormal_logpdf = demo_lognormal_logpdf, lognormal_pdf = demo_lognormal_pdf,
      lognstat = demo_lognstat\<rparr>"

definition half_tape :: "nat \<Rightarrow> real" where
  "half_tape n = 1 / 2"

definition zero_tape :: "nat \<Rightarrow> real" where
  "zero_tape n = 0"

definition demo_rng :: rng where
  "demo_rng = \<lparr>uniforms = half_tape, normals = zero_tape, n_uniform = 0, n_normal = 0\<rparr>"

definition demo_theta :: ndarray where
  "demo_theta = np_full [1, 1, 2] 0"

definition demo_uut :: ndarray where
  "demo_uut = np_full [2, 1, 1] 0"

definition demo_S :: ndarray where
  "demo_S = np_full [2, 1, 1] 1"

definition demo_L :: ndarray where
  "demo_L = np_full [1, 1] 1"

definition flat_prior :: ndarray where
  "flat_prior = np_full [3] 0"

definition demo_state :: gwp_state where
  "demo_state =
     \<lparr>xx_xx = demo_theta, xx_uut = demo_uut, xx_V = demo_uut, xx_S = demo_S, xx_L = demo_L\<rparr>"

definition demo_state2 :: gwp_state where
  "demo_state2 =
     \<lparr>xx_xx = demo_theta, xx_uut = demo_uut, xx_V = demo_S, xx_S = demo_S, xx_L = demo_L\<rparr>"

definition theta8 :: ndarray where
  "theta8 = np_full [2, 2, 2] 0"

definition flat8 :: ndarray where
  "flat8 = np_full [8] 0"

definition state8 :: gwp_state where
  "state8 =
     \<lparr>xx_xx = theta8, xx_uut = demo_uut, xx_V = demo_uut, xx_S = demo_S, xx_L = demo_L\<rparr>"

definition theta21 :: ndarray where
  "theta21 = np_full [2, 1, 1] 0"

definition flat2 :: ndarray where
  "flat2 = np_full [2] 0"

definition state21 :: gwp_state where
  "state21 =
     \<lparr>xx_xx = theta21, xx_uut = demo_uut, xx_V = demo_uut, xx_S = demo_S, xx_L = demo_L\<rparr>"

definition theta212 :: ndarray where
  "theta212 = np_full [2, 1, 2] 0"

definition one_tape :: "nat \<Rightarrow> real" where
  "one_tape n = 1"

definition demo_rng1 :: rng where
  "demo_rng1 = \<lparr>uniforms = half_tape, normals = one_tape, n_uniform = 0, n_normal = 0\<rparr>"

definition demo_kern :: "ndarray \<Rightarrow> real \<Rightarrow> ndarray" where
  "demo_kern tcol inverse_width = np_full [hd (shape tcol), hd (shape tcol)] 1"

definition demo_la :: linalg_lib where
  "demo_la = \<lparr>pinvh = (\<lambda>K. K), fast_logdet = (\<lambda>K. 0)\<rparr>"

definition demo_t :: ndarray where
  "demo_t = np_full [1] 0"

definition demo_umat :: ndarray where
  "demo_umat = np_full [1, 1, 1] 0"

definition demo_S1 :: ndarray where
  "demo_S1 = np_full [1, 1, 1] 1"

definition demo_S2 :: ndarray where
  "demo_S2 = np_full [2, 2, 1] 1"

definition eighth_tape :: "nat \<Rightarrow> real" where
  "eighth_tape n = 1 / 8"

definition rng8 :: rng where
  "rng8 = \<lparr>uniforms = eighth_tape, normals = zero_tape, n_uniform = 0, n_normal = 0\<rparr>"

definition theta_w :: ndarray where
  "theta_w = \<lparr>shape = [1, 2, 1], data = [2, 0]\<rparr>"

definition nu_w :: ndarray where
  "nu_w = \<lparr>shape = [1, 2, 1], data = [0, 4]\<rparr>"

definition xp_w :: ndarray where
  "xp_w = \<lparr>shape = [1, 2, 1], data = [sqrt 2, 2 * sqrt 2]\<rparr>"

definition uut_w :: ndarray where
  "uut_w = \<lparr>shape = [1, 2, 2], data = [2, 4, 4, 8]\<rparr>"

definition S_w :: ndarray where
  "S_w = \<lparr>shape = [1, 2, 2], data = [2, 4, 4, 8]\<rparr>"

definition uut0_w :: ndarray where
  "uut0_w = \<lparr>shape = [1, 2, 2], data = [4, 0, 0, 0]\<rparr>"

definition L_w :: ndarray where
  "L_w = \<lparr>shape = [2, 2], data = [1, 0, 1, 1]\<rparr>"

definition state_w :: gwp_state where
  "state_w = \<lparr>xx_xx = theta_w, xx_uut = uut0_w, xx_V = uut0_w, xx_S = S_w, xx_L = L_w\<rparr>"

section \<open>Evaluating the concrete inputs\<close>

lemmas ev = eval_nat_numeral upt_conv_Cons item_def flat_index_def bidx_def np_full_def Let_def

lemma demo_point: "ellipse_point demo_theta demo_theta phi = Inr demo_theta"
  by (simp add: demo_theta_def ellipse_point_def np_binop_def np_scale_def broadcast_shapes_def ev)

lemma demo_outer: "outer_products demo_theta = Inr demo_uut"
  by (simp add: demo_theta_def demo_uut_def outer_products_def np_T_def subarrays_def
      np_array_def np_dot_def ev)

lemma demo_setup:
  "ellipse_setup demo_lib demo_state demo_theta (Some c) 1 0 demo_rng =
     (Inr \<lparr>e_nu = demo_theta, e_hh = 0.001 * ln (1 / 2) + c, e_phi = pi,
           e_phi_min = - pi, e_phi_max = pi\<rparr>,
      demo_rng\<lparr>n_uniform := 2\<rparr>)"
  by (simp add: ellipse_setup_def demo_state_def draw_nu_def np_size_def start_log_like_def
      random_uniform_def demo_rng_def half_tape_def demo_theta_def np_full_def)

lemma demo_lik:
  "log_lik_frob demo_lib demo_S (GWP_construct demo_lib demo_theta demo_L (Some demo_uut)) 1 = - 1"
  by (simp add: demo_lib_def demo_GWP_def demo_log_lik_def demo_S_def demo_uut_def np_full_def
      eval_nat_numeral)

lemma ln_half_neg: "ln (1 / 2 :: real) < 0"
  by simp

lemma demo_fields:
  "xx_xx demo_state = demo_theta" "xx_S demo_state = demo_S" "xx_L demo_state = demo_L"
  "xx_V demo_state = demo_uut" "xx_uut demo_state = demo_uut"
  by (simp_all add: demo_state_def)

lemma demo_theta_shape: "shape demo_theta = [1, 1, 2]"
  by (simp add: demo_theta_def np_full_def)

section \<open>elliptical_slice: validation of the prior\<close>

text \<open>
  C1 (as amended). The claim reads: a prior whose shape is neither \<open>(D,)\<close> nor
  \<open>(D, D)\<close> is refused with the \<^verbatim>\<open>ValueError\<close> of line 71 before any random draw.
  The source tests \<^verbatim>\<open>prior.size == D\<close>, not the shape: when the latent tensor has the
  shape \<open>(v, p, N)\<close> and \<open>D = v * p * N\<close>, every prior that does not have \<open>D\<close> elements
  and does not have the shape \<open>(D, D)\<close> makes the call raise that error, with the
  bundle and the generator untouched (no draw was made) and the loop never entered.
\<close>

theorem prior_shape_rejected:
  assumes "shape (xx_xx st) = [v, p, N]" and "np_size prior \<noteq> v * p * N"
    and "shape prior \<noteq> [v * p * N, v * p * N]"
  shows "elliptical_slice lib st prior cur_log_like variance angle_range max_iter g =
     \<lparr>outcome = Inl (ValueError prior_msg), state_after = st, rng_after = g, loop_end = None\<rparr>"
  using assms by (simp add: elliptical_slice_def ellipse_setup_def draw_nu_def Let_def)

theorem prior_shape_rejected_witness:
  "shape (xx_xx demo_state) = [1, 1, 2] \<and> np_size flat_prior \<noteq> 1 * 1 * 2
   \<and> shape flat_prior \<noteq> [1 * 1 * 2, 1 * 1 * 2]
   \<and> elliptical_slice demo_lib demo_state flat_prior (Some 0) 1 0 20 demo_rng =
     \<lparr>outcome = Inl (ValueError prior_msg), state_after = demo_state, rng_after = demo_rng,
      loop_end = None\<rparr>"
  using prior_shape_rejected [of demo_state 1 1 2 flat_prior demo_lib "Some 0" 1 0 20 demo_rng]
  by (simp add: demo_state_def demo_theta_def flat_prior_def np_full_def np_size_def)

text \<open>
  C1 as stated fails: a prior of the latent tensor's own shape \<open>(1, 1, 2)\<close> has a
  shape that is neither \<open>(2,)\<close> nor \<open>(2, 2)\<close>, yet it has \<open>D = 2\<close> elements, is taken
  as the sample \<open>nu\<close>, and the call returns a log-likelihood.
\<close>

theorem same_shape_prior_accepted:
  "shape demo_theta \<noteq> [2] \<and> shape demo_theta \<noteq> [2, 2]
   \<and> outcome (elliptical_slice demo_lib demo_state demo_theta (Some (- 1)) 1 0 20 demo_rng)
       = Inr (Some (- 1))"
proof -
  have "[0..<nat 20] = 0 # [1..<20]" by (simp add: upt_conv_Cons)
  then show ?thesis
    using ln_half_neg
    by (simp add: elliptical_slice_def demo_setup demo_point demo_outer demo_lik demo_fields
        demo_theta_shape)
qed

section \<open>elliptical_slice: the generator, the set-up and the ways the call ends\<close>

lemma slice_loop_rng:
  "slice_loop lib theta nu S L variance hh its phi phi_min phi_max g = (ex, g') \<Longrightarrow>
     uniforms g' = uniforms g \<and> normals g' = normals g \<and> n_normal g' = n_normal g
     \<and> n_uniform g \<le> n_uniform g' \<and> n_uniform g' \<le> n_uniform g + length its
     \<and> (ex = Exhausted \<longrightarrow> n_uniform g' = n_uniform g + length its)"
proof (induction its arbitrary: phi phi_min phi_max g)
  case Nil
  then show ?case by simp
next
  case (Cons it rest)
  show ?case
  proof (cases "ellipse_point theta nu phi")
    case (Inl e)
    with Cons.prems show ?thesis by auto
  next
    case (Inr xp)
    show ?thesis
    proof (cases "outer_products xp")
      case (Inl e)
      with Cons.prems Inr show ?thesis by auto
    next
      case uut: (Inr uut)
      let ?ll = "log_lik_frob lib S (GWP_construct lib xp L (Some uut)) variance"
      let ?g1 = "g\<lparr>n_uniform := Suc (n_uniform g)\<rparr>"
      let ?u = "uniforms g (n_uniform g)"
      consider (acc) "?ll > hh" | (pos) "\<not> ?ll > hh" "phi > 0"
        | (neg) "\<not> ?ll > hh" "\<not> phi > 0" "phi < 0" | (zero) "\<not> ?ll > hh" "\<not> phi > 0" "\<not> phi < 0"
        by blast
      then show ?thesis
      proof cases
        case acc
        with Cons.prems Inr uut show ?thesis by (auto simp: Let_def)
      next
        case pos
        with Cons.prems Inr uut
        have "slice_loop lib theta nu S L variance hh rest (?u * (phi - phi_min) + phi_min) phi_min phi ?g1 = (ex, g')"
          by (simp add: Let_def random_uniform_def)
        from Cons.IH [OF this] show ?thesis by auto
      next
        case neg
        with Cons.prems Inr uut
        have "slice_loop lib theta nu S L variance hh rest (?u * (phi_max - phi) + phi) phi phi_max ?g1 = (ex, g')"
          by (simp add: Let_def random_uniform_def)
        from Cons.IH [OF this] show ?thesis by auto
      next
        case zero
        with Cons.prems Inr uut show ?thesis by (auto simp: Let_def)
      qed
    qed
  qed
qed

lemma draw_nu_uniform:
  "draw_nu theta prior D g = (r, g1) \<Longrightarrow>
     uniforms g1 = uniforms g \<and> n_uniform g1 = n_uniform g \<and> normals g1 = normals g"
  by (auto simp: draw_nu_def random_normal_size_def split: if_splits sum.splits)

lemma setup_Inr:
  assumes "ellipse_setup lib st prior cur_log_like variance angle_range g = (Inr el, g1)"
  shows "n_uniform g1 = n_uniform g + (if angle_range \<le> 0 then 2 else 3)"
    and "e_hh el = 0.001 * ln (uniforms g (n_uniform g)) + start_log_like lib st cur_log_like variance"
    and "angle_range \<le> 0 \<Longrightarrow> e_phi el = uniforms g (Suc (n_uniform g)) * 2 * pi
          \<and> e_phi_min el = e_phi el - 2 * pi \<and> e_phi_max el = e_phi el"
    and "uniforms g1 = uniforms g"
proof -
  from assms obtain v p N where sh: "unpack3 (shape (xx_xx st)) = Inr (v, p, N)"
    by (auto simp: ellipse_setup_def Let_def split: sum.splits)
  from assms sh obtain nu g0 where nu: "draw_nu (xx_xx st) prior (v * p * N) g = (Inr nu, g0)"
    by (auto simp: ellipse_setup_def Let_def split: sum.splits prod.splits)
  note d = draw_nu_uniform [OF nu]
  from assms sh nu d show "n_uniform g1 = n_uniform g + (if angle_range \<le> 0 then 2 else 3)"
    by (auto simp: ellipse_setup_def Let_def random_uniform_def split: if_splits)
  from assms sh nu d show "e_hh el = 0.001 * ln (uniforms g (n_uniform g)) + start_log_like lib st cur_log_like variance"
    by (auto simp: ellipse_setup_def Let_def random_uniform_def split: if_splits)
  from assms sh nu d show "angle_range \<le> 0 \<Longrightarrow> e_phi el = uniforms g (Suc (n_uniform g)) * 2 * pi
          \<and> e_phi_min el = e_phi el - 2 * pi \<and> e_phi_max el = e_phi el"
    by (auto simp: ellipse_setup_def Let_def random_uniform_def split: if_splits)
  from assms sh nu d show "uniforms g1 = uniforms g"
    by (auto simp: ellipse_setup_def Let_def random_uniform_def split: if_splits)
qed

lemma slice_cases:
  obtains (setup_err) e g1 where "ellipse_setup lib st prior cur_log_like variance angle_range g = (Inl e, g1)"
      "elliptical_slice lib st prior cur_log_like variance angle_range max_iter g =
         \<lparr>outcome = Inl e, state_after = st, rng_after = g1, loop_end = None\<rparr>"
  | (loop) el g1 ex g2 where "ellipse_setup lib st prior cur_log_like variance angle_range g = (Inr el, g1)"
      "slice_loop lib (xx_xx st) (e_nu el) (xx_S st) (xx_L st) variance (e_hh el)
          [0..<nat max_iter] (e_phi el) (e_phi_min el) (e_phi_max el) g1 = (ex, g2)"
      "elliptical_slice lib st prior cur_log_like variance angle_range max_iter g =
         (case ex of
            Broke it xx_proposal uut V ll \<Rightarrow>
               \<lparr>outcome = Inr (Some ll),
                state_after = st\<lparr>xx_uut := uut, xx_xx := xx_proposal, xx_V := V\<rparr>,
                rng_after = g2, loop_end = Some ex\<rparr>
          | Exhausted \<Rightarrow> \<lparr>outcome = Inr cur_log_like, state_after = st, rng_after = g2, loop_end = Some ex\<rparr>
          | Raised e \<Rightarrow> \<lparr>outcome = Inl e, state_after = st, rng_after = g2, loop_end = Some ex\<rparr>)"
proof (cases "ellipse_setup lib st prior cur_log_like variance angle_range g")
  case (Pair r g1)
  show ?thesis
  proof (cases r)
    case (Inl e)
    with Pair show ?thesis by (intro setup_err [of e g1]) (simp_all add: elliptical_slice_def)
  next
    case (Inr el)
    obtain ex g2 where lp: "slice_loop lib (xx_xx st) (e_nu el) (xx_S st) (xx_L st) variance (e_hh el)
          [0..<nat max_iter] (e_phi el) (e_phi_min el) (e_phi_max el) g1 = (ex, g2)"
      by (cases "slice_loop lib (xx_xx st) (e_nu el) (xx_S st) (xx_L st) variance (e_hh el)
          [0..<nat max_iter] (e_phi el) (e_phi_min el) (e_phi_max el) g1") auto
    with Pair Inr show ?thesis
      by (intro loop [of el g1 ex g2]) (simp_all add: elliptical_slice_def split: loop_exit.splits)
  qed
qed


lemma ln_half_bound: "- 1 < 0.001 * ln (1 / 2 :: real)"
proof -
  have "ln (1 / 2 :: real) = - ln 2" by (simp add: ln_div)
  moreover have "ln (2 :: real) < 1" by (rule ln_2_less_1)
  ultimately show ?thesis by simp
qed

lemma demo_rng_sel:
  "uniforms demo_rng = half_tape" "normals demo_rng = zero_tape"
  "n_uniform demo_rng = 0" "n_normal demo_rng = 0"
  by (simp_all add: demo_rng_def)

lemma demo_exhausted:
  "elliptical_slice demo_lib demo_state demo_theta (Some 0) 1 0 1 demo_rng =
     \<lparr>outcome = Inr (Some 0), state_after = demo_state, rng_after = demo_rng\<lparr>n_uniform := 3\<rparr>,
      loop_end = Some Exhausted\<rparr>"
proof -
  have "[0..<nat 1] = [0]" by simp
  then show ?thesis
    using ln_half_bound
    by (simp add: elliptical_slice_def demo_setup demo_fields demo_point demo_outer demo_lik
        random_uniform_def demo_rng_sel half_tape_def)
qed

section \<open>elliptical_slice: running out of iterations\<close>

text \<open>
  C3. When the loop runs out of its \<open>max_iter\<close> iterations (no proposal exceeded the
  slice threshold, so the \<^verbatim>\<open>else\<close> clause of the loop set \<^verbatim>\<open>error = True\<close>), the call
  does not raise: it returns the log-likelihood it was given, unchanged, and the whole
  bundle is as it was before the call (the latent tensor is written back with its own
  old value). Each of the \<open>max_iter\<close> iterations drew one new angle, after the two
  (or, with a positive \<open>angle_range\<close>, three) uniform draws of the set-up.
\<close>

theorem exhausted_reverts:
  assumes "loop_end (elliptical_slice lib st prior cur_log_like variance angle_range max_iter g)
             = Some Exhausted"
  shows "outcome (elliptical_slice lib st prior cur_log_like variance angle_range max_iter g)
           = Inr cur_log_like
       \<and> state_after (elliptical_slice lib st prior cur_log_like variance angle_range max_iter g)
           = st
       \<and> n_uniform (rng_after (elliptical_slice lib st prior cur_log_like variance angle_range
             max_iter g))
           = n_uniform g + (if angle_range \<le> 0 then 2 else 3) + nat max_iter"
proof (cases rule: slice_cases [of lib st prior cur_log_like variance angle_range g max_iter])
  case (setup_err e g1)
  with assms show ?thesis by simp
next
  case (loop el g1 ex g2)
  with assms have ex: "ex = Exhausted" by (cases ex) simp_all
  from slice_loop_rng [OF loop(2)] ex setup_Inr(1) [OF loop(1)] loop(3)
  show ?thesis by simp
qed

theorem exhausted_reverts_witness:
  "loop_end (elliptical_slice demo_lib demo_state demo_theta (Some 0) 1 0 1 demo_rng) = Some Exhausted
   \<and> outcome (elliptical_slice demo_lib demo_state demo_theta (Some 0) 1 0 1 demo_rng) = Inr (Some 0)
   \<and> state_after (elliptical_slice demo_lib demo_state demo_theta (Some 0) 1 0 1 demo_rng) = demo_state
   \<and> n_uniform (rng_after (elliptical_slice demo_lib demo_state demo_theta (Some 0) 1 0 1 demo_rng)) = 3"
proof -
  have h: "loop_end (elliptical_slice demo_lib demo_state demo_theta (Some 0) 1 0 1 demo_rng) = Some Exhausted"
    by (simp add: demo_exhausted)
  from exhausted_reverts [OF h] h show ?thesis
    by (simp add: demo_rng_sel)
qed

lemma demo_setup2:
  "ellipse_setup demo_lib demo_state2 demo_theta None 1 0 demo_rng =
     (Inr \<lparr>e_nu = demo_theta, e_hh = 0.001 * ln (1 / 2), e_phi = pi,
           e_phi_min = - pi, e_phi_max = pi\<rparr>,
      demo_rng\<lparr>n_uniform := 2\<rparr>)"
  by (simp add: ellipse_setup_def demo_state2_def draw_nu_def np_size_def start_log_like_def
      random_uniform_def demo_rng_def half_tape_def demo_theta_def np_full_def
      demo_lib_def demo_log_lik_def demo_S_def eval_nat_numeral)

lemma demo_fields2:
  "xx_xx demo_state2 = demo_theta" "xx_S demo_state2 = demo_S" "xx_L demo_state2 = demo_L"
  "xx_V demo_state2 = demo_S" "xx_uut demo_state2 = demo_uut"
  by (simp_all add: demo_state2_def)

lemma demo_exhausted2:
  "elliptical_slice demo_lib demo_state2 demo_theta None 1 0 1 demo_rng =
     \<lparr>outcome = Inr None, state_after = demo_state2, rng_after = demo_rng\<lparr>n_uniform := 3\<rparr>,
      loop_end = Some Exhausted\<rparr>"
proof -
  have "[0..<nat 1] = [0]" by simp
  then show ?thesis
    using ln_half_bound
    by (simp add: elliptical_slice_def demo_setup2 demo_fields2 demo_point demo_outer demo_lik
        random_uniform_def demo_rng_sel half_tape_def)
qed

text \<open>
  C10. Called with \<^verbatim>\<open>cur_log_like = None\<close>, the function computes a log-likelihood
  from the bundle for the slice threshold (line 62), but when the loop runs out of
  iterations it returns \<^verbatim>\<open>cur_log_like_start\<close>, which is still \<open>None\<close>: the recomputed
  value is used for the threshold only and is not returned.
\<close>

theorem exhausted_without_log_like_returns_None:
  assumes "loop_end (elliptical_slice lib st prior None variance angle_range max_iter g)
             = Some Exhausted"
  shows "outcome (elliptical_slice lib st prior None variance angle_range max_iter g) = Inr None
       \<and> state_after (elliptical_slice lib st prior None variance angle_range max_iter g) = st
       \<and> (\<exists>el g1. ellipse_setup lib st prior None variance angle_range g = (Inr el, g1)
            \<and> e_hh el = 0.001 * ln (uniforms g (n_uniform g))
                          + log_lik_frob lib (xx_S st) (xx_V st) variance)"
proof (cases rule: slice_cases [of lib st prior None variance angle_range g max_iter])
  case (setup_err e g1)
  with assms show ?thesis by simp
next
  case (loop el g1 ex g2)
  with assms have ex: "ex = Exhausted" by (cases ex) simp_all
  from setup_Inr(2) [OF loop(1)] loop(1) loop(3) ex
  show ?thesis by (simp add: start_log_like_def)
qed

theorem exhausted_without_log_like_returns_None_witness:
  "loop_end (elliptical_slice demo_lib demo_state2 demo_theta None 1 0 1 demo_rng) = Some Exhausted
   \<and> outcome (elliptical_slice demo_lib demo_state2 demo_theta None 1 0 1 demo_rng) = Inr None
   \<and> state_after (elliptical_slice demo_lib demo_state2 demo_theta None 1 0 1 demo_rng) = demo_state2"
proof -
  have h: "loop_end (elliptical_slice demo_lib demo_state2 demo_theta None 1 0 1 demo_rng) = Some Exhausted"
    by (simp add: demo_exhausted2)
  from exhausted_without_log_like_returns_None [OF h] h show ?thesis
    by simp
qed

section \<open>elliptical_slice: acceptance of the first proposal\<close>

text \<open>
  The multi-indices of a shape are enumerated in row-major order, so for two well-formed
  arrays of one shape an elementwise operation pairs their elements position by
  position, and the proposed point of line 94 is, element by element,
  \<open>x * cos phi + n * sin phi\<close>.
\<close>

lemma broadcast_dims_same: "broadcast_dims xs xs = Some xs"
  by (induction xs) simp_all

lemma concat_blocks:
  "concat (map (\<lambda>i. [(b + i) * P..<(b + i) * P + P]) [0..<d]) = [b * P..<(b + d) * P]"
proof (induction d)
  case 0
  then show ?case by simp
next
  case (Suc d)
  have "[b * P..<(b + Suc d) * P] = [b * P..<(b + d) * P] @ [(b + d) * P..<(b + d) * P + P]"
    using upt_add_eq_append [of "b * P" "(b + d) * P" P] by (simp add: algebra_simps)
  with Suc show ?case by simp
qed

lemma foldl_indices:
  "map (\<lambda>idx. foldl (\<lambda>acc (d, i). acc * d + i) a (zip sh idx)) (indices sh)
     = [a * prod_list sh..<a * prod_list sh + prod_list sh]"
proof (induction sh arbitrary: a)
  case Nil
  then show ?case by simp
next
  case (Cons d ds)
  let ?P = "prod_list ds"
  have "map (\<lambda>idx. foldl (\<lambda>acc (d, i). acc * d + i) a (zip (d # ds) idx)) (indices (d # ds))
      = concat (map (\<lambda>i. map (\<lambda>idx. foldl (\<lambda>acc (d, i). acc * d + i) (a * d + i) (zip ds idx))
                               (indices ds)) [0..<d])"
    by (simp add: map_concat comp_def)
  also have "\<dots> = concat (map (\<lambda>i. [(a * d + i) * ?P..<(a * d + i) * ?P + ?P]) [0..<d])"
    by (simp add: Cons.IH)
  also have "\<dots> = [a * d * ?P..<(a * d + d) * ?P]"
    by (rule concat_blocks)
  finally show ?case by (simp add: algebra_simps)
qed

lemma flat_index_indices: "map (flat_index sh) (indices sh) = [0..<prod_list sh]"
proof -
  have "flat_index sh = (\<lambda>idx. foldl (\<lambda>acc (d, i). acc * d + i) 0 (zip sh idx))"
    by (rule ext) (simp add: flat_index_def)
  with foldl_indices [of 0 sh] show ?thesis by simp
qed

lemma indices_valid:
  "idx \<in> set (indices sh) \<Longrightarrow> length idx = length sh \<and> (\<forall>k<length sh. idx ! k < sh ! k)"
proof (induction sh arbitrary: idx)
  case Nil
  then show ?case by simp
next
  case (Cons d ds)
  then obtain i rest where idx: "idx = i # rest" "i < d" "rest \<in> set (indices ds)" by auto
  with Cons.IH [of rest] show ?case by (auto simp: nth_Cons split: nat.splits)
qed

lemma bidx_same: "idx \<in> set (indices sh) \<Longrightarrow> bidx sh idx = idx"
proof -
  assume "idx \<in> set (indices sh)"
  then have v: "length idx = length sh" "\<forall>k<length sh. idx ! k < sh ! k"
    using indices_valid by blast+
  show ?thesis
  proof (rule nth_equalityI)
    show "length (bidx sh idx) = length idx" using v by (simp add: bidx_def)
  next
    fix k assume "k < length (bidx sh idx)"
    with v have k: "k < length sh" by (simp add: bidx_def)
    with v have "sh ! k = 1 \<Longrightarrow> idx ! k = 0" by (metis less_one)
    with k v show "bidx sh idx ! k = idx ! k" by (auto simp: bidx_def)
  qed
qed

lemma np_binop_same_shape:
  assumes "shape b = shape a" and "wf_array a" and "wf_array b"
  shows "np_binop f a b = Inr \<lparr>shape = shape a, data = map2 f (data a) (data b)\<rparr>"
proof -
  let ?sh = "shape a"
  let ?n = "prod_list ?sh"
  from assms have la: "length (data a) = ?n" and lb: "length (data b) = ?n"
    by (simp_all add: wf_array_def)
  have "map (\<lambda>idx. f (item a (bidx ?sh idx)) (item b (bidx ?sh idx))) (indices ?sh)
      = map (\<lambda>idx. f (data a ! flat_index ?sh idx) (data b ! flat_index ?sh idx)) (indices ?sh)"
    by (rule map_cong) (simp_all add: bidx_same item_def assms(1))
  also have "\<dots> = map (\<lambda>k. f (data a ! k) (data b ! k)) (map (flat_index ?sh) (indices ?sh))"
    by (simp add: comp_def)
  also have "\<dots> = map (\<lambda>k. f (data a ! k) (data b ! k)) [0..<?n]"
    by (simp only: flat_index_indices)
  also have "\<dots> = map2 f (data a) (data b)"
    using la lb by (intro nth_equalityI) simp_all
  finally have "map (\<lambda>idx. f (item a (bidx ?sh idx)) (item b (bidx ?sh idx))) (indices ?sh)
      = map2 f (data a) (data b)" .
  then show ?thesis
    by (simp add: np_binop_def assms(1) broadcast_shapes_def broadcast_dims_same)
qed

lemma ellipse_point_same_shape:
  assumes "shape nu = shape theta" and "wf_array theta" and "wf_array nu"
  shows "ellipse_point theta nu phi =
     Inr \<lparr>shape = shape theta,
          data = map2 (\<lambda>x n. x * cos phi + n * sin phi) (data theta) (data nu)\<rparr>"
proof -
  have "np_binop (+) (np_scale theta (cos phi)) (np_scale nu (sin phi)) =
      Inr \<lparr>shape = shape (np_scale theta (cos phi)),
           data = map2 (+) (data (np_scale theta (cos phi))) (data (np_scale nu (sin phi)))\<rparr>"
    using assms by (intro np_binop_same_shape) (simp_all add: np_scale_def wf_array_def)
  moreover have "map2 (+) (data (np_scale theta (cos phi))) (data (np_scale nu (sin phi)))
      = map2 (\<lambda>x n. x * cos phi + n * sin phi) (data theta) (data nu)"
    by (simp add: np_scale_def zip_map_map map_zip_map map_zip_map2 case_prod_beta)
  ultimately show ?thesis by (simp add: ellipse_point_def np_scale_def)
qed

lemma setup_w:
  "ellipse_setup demo_lib state_w nu_w (Some c) 1 0 rng8 =
     (Inr \<lparr>e_nu = nu_w, e_hh = 0.001 * ln (1 / 8) + c, e_phi = pi / 4,
           e_phi_min = pi / 4 - 2 * pi, e_phi_max = pi / 4\<rparr>,
      rng8\<lparr>n_uniform := 2\<rparr>)"
  by (simp add: ellipse_setup_def state_w_def draw_nu_def np_size_def start_log_like_def
      random_uniform_def rng8_def eighth_tape_def theta_w_def nu_w_def Let_def)

lemma point_w: "ellipse_point theta_w nu_w (pi / 4) = Inr xp_w"
  by (simp add: theta_w_def nu_w_def xp_w_def ellipse_point_def np_binop_def np_scale_def
      broadcast_shapes_def cos_45 sin_45 ev)

lemma outer_w: "outer_products xp_w = Inr uut_w"
  by (simp add: xp_w_def uut_w_def outer_products_def np_T_def subarrays_def np_array_def
      np_dot_def ev)

lemma lik_w: "log_lik_frob demo_lib S_w (GWP_construct demo_lib xp_w L_w (Some uut_w)) 1 = 0"
  by (simp add: demo_lib_def demo_GWP_def demo_log_lik_def S_w_def uut_w_def)

lemma ln_eighth_bound: "ln (1 / 8 :: real) < 50000"
proof -
  have "ln (1 / 8 :: real) < 0" by simp
  then show ?thesis by linarith
qed

lemma fields_w:
  "xx_xx state_w = theta_w" "xx_S state_w = S_w" "xx_L state_w = L_w"
  "xx_V state_w = uut0_w" "xx_uut state_w = uut0_w"
  by (simp_all add: state_w_def)

text \<open>
  C8. With \<open>angle_range \<le> 0\<close> the first angle is \<open>2 * pi\<close> times the second uniform
  draw and both edges of the bracket sit at that first point. When the loop has at
  least one iteration and the first proposed point \<open>xp\<close> (with its cross-product tensor
  \<open>uut\<close> and its field) has a log-likelihood above the threshold, the loop breaks in
  iteration 0: the generator is as the set-up left it, so no further angle was drawn
  and the bracket was never shrunk, and the proposal, its cross-product tensor and its
  field are written into the bundle. The proposed point has the broadcast shape of the
  latent tensor and \<open>nu\<close>; when \<open>nu\<close> has the latent tensor's shape, it is the array
  with the elements \<open>x * cos phi + n * sin phi\<close>, for \<open>x\<close> in the latent tensor and \<open>n\<close>
  at the same position in \<open>nu\<close>.
\<close>

theorem first_proposal_accepted:
  assumes "angle_range \<le> 0" and "0 < max_iter"
    and "ellipse_setup lib st prior cur_log_like variance angle_range g = (Inr el, g1)"
    and "ellipse_point (xx_xx st) (e_nu el) (e_phi el) = Inr xp"
    and "outer_products xp = Inr uut"
    and "log_lik_frob lib (xx_S st) (GWP_construct lib xp (xx_L st) (Some uut)) variance > e_hh el"
  shows "elliptical_slice lib st prior cur_log_like variance angle_range max_iter g =
     \<lparr>outcome = Inr (Some (log_lik_frob lib (xx_S st)
                            (GWP_construct lib xp (xx_L st) (Some uut)) variance)),
      state_after = st\<lparr>xx_uut := uut, xx_xx := xp,
                       xx_V := GWP_construct lib xp (xx_L st) (Some uut)\<rparr>,
      rng_after = g1,
      loop_end = Some (Broke 0 xp uut (GWP_construct lib xp (xx_L st) (Some uut))
                   (log_lik_frob lib (xx_S st)
                      (GWP_construct lib xp (xx_L st) (Some uut)) variance))\<rparr>
     \<and> e_phi el = uniforms g (Suc (n_uniform g)) * 2 * pi
     \<and> e_phi_min el = e_phi el - 2 * pi \<and> e_phi_max el = e_phi el
     \<and> n_uniform g1 = n_uniform g + 2
     \<and> broadcast_shapes (shape (xx_xx st)) (shape (e_nu el)) = Some (shape xp)
     \<and> (wf_array (xx_xx st) \<and> wf_array (e_nu el) \<and> shape (e_nu el) = shape (xx_xx st)
          \<longrightarrow> xp = \<lparr>shape = shape (xx_xx st),
                     data = map2 (\<lambda>x n. x * cos (e_phi el) + n * sin (e_phi el))
                              (data (xx_xx st)) (data (e_nu el))\<rparr>)"
proof -
  from assms(2) have its: "[0..<nat max_iter] = 0 # [1..<nat max_iter]"
    by (simp add: upt_conv_Cons)
  from assms(3-6) its
  have run: "elliptical_slice lib st prior cur_log_like variance angle_range max_iter g =
     \<lparr>outcome = Inr (Some (log_lik_frob lib (xx_S st)
                            (GWP_construct lib xp (xx_L st) (Some uut)) variance)),
      state_after = st\<lparr>xx_uut := uut, xx_xx := xp,
                       xx_V := GWP_construct lib xp (xx_L st) (Some uut)\<rparr>,
      rng_after = g1,
      loop_end = Some (Broke 0 xp uut (GWP_construct lib xp (xx_L st) (Some uut))
                   (log_lik_frob lib (xx_S st)
                      (GWP_construct lib xp (xx_L st) (Some uut)) variance))\<rparr>"
    by (simp add: elliptical_slice_def Let_def)
  from assms(4) have bc: "broadcast_shapes (shape (xx_xx st)) (shape (e_nu el)) = Some (shape xp)"
    by (auto simp: ellipse_point_def np_binop_def np_scale_def split: option.splits)
  have formula: "wf_array (xx_xx st) \<and> wf_array (e_nu el) \<and> shape (e_nu el) = shape (xx_xx st)
          \<longrightarrow> xp = \<lparr>shape = shape (xx_xx st),
                     data = map2 (\<lambda>x n. x * cos (e_phi el) + n * sin (e_phi el))
                              (data (xx_xx st)) (data (e_nu el))\<rparr>"
    using assms(4) by (auto simp: ellipse_point_same_shape)
  from run bc formula setup_Inr(1,3) [OF assms(3)] assms(1) show ?thesis by simp
qed

theorem first_proposal_accepted_witness:
  "(0::real) \<le> 0 \<and> (0::int) < 20
   \<and> ellipse_setup demo_lib state_w nu_w (Some (- 50)) 1 0 rng8 =
       (Inr \<lparr>e_nu = nu_w, e_hh = 0.001 * ln (1 / 8) + - 50, e_phi = pi / 4,
             e_phi_min = pi / 4 - 2 * pi, e_phi_max = pi / 4\<rparr>, rng8\<lparr>n_uniform := 2\<rparr>)
   \<and> ellipse_point theta_w nu_w (pi / 4) = Inr xp_w
   \<and> outer_products xp_w = Inr uut_w
   \<and> log_lik_frob demo_lib S_w (GWP_construct demo_lib xp_w L_w (Some uut_w)) 1
        > 0.001 * ln (1 / 8) + - 50
   \<and> wf_array theta_w \<and> wf_array nu_w \<and> shape nu_w = shape theta_w
   \<and> elliptical_slice demo_lib state_w nu_w (Some (- 50)) 1 0 20 rng8 =
       \<lparr>outcome = Inr (Some 0),
        state_after = state_w\<lparr>xx_uut := uut_w, xx_xx := xp_w, xx_V := uut_w\<rparr>,
        rng_after = rng8\<lparr>n_uniform := 2\<rparr>,
        loop_end = Some (Broke 0 xp_w uut_w uut_w 0)\<rparr>
   \<and> xp_w = \<lparr>shape = [1, 2, 1],
               data = map2 (\<lambda>x n. x * cos (pi / 4) + n * sin (pi / 4)) [2, 0] [0, 4]\<rparr>
   \<and> data (xx_xx (state_after (elliptical_slice demo_lib state_w nu_w (Some (- 50)) 1 0 20 rng8)))
       = [sqrt 2, 2 * sqrt 2]
   \<and> data (xx_uut (state_after (elliptical_slice demo_lib state_w nu_w (Some (- 50)) 1 0 20
        rng8))) = [2, 4, 4, 8]"
proof -
  let ?el = "\<lparr>e_nu = nu_w, e_hh = 0.001 * ln (1 / 8) + - 50, e_phi = pi / 4,
             e_phi_min = pi / 4 - 2 * pi, e_phi_max = pi / 4\<rparr>"
  have a: "(0::real) \<le> 0" and b: "(0::int) < 20" by simp_all
  have c: "ellipse_setup demo_lib state_w nu_w (Some (- 50)) 1 0 rng8 =
       (Inr ?el, rng8\<lparr>n_uniform := 2\<rparr>)"
    by (rule setup_w)
  have d: "ellipse_point (xx_xx state_w) (e_nu ?el) (e_phi ?el) = Inr xp_w"
    by (simp add: fields_w point_w)
  have e: "outer_products xp_w = Inr uut_w" by (rule outer_w)
  have f: "log_lik_frob demo_lib (xx_S state_w)
             (GWP_construct demo_lib xp_w (xx_L state_w) (Some uut_w)) 1 > e_hh ?el"
    using ln_eighth_bound by (simp add: fields_w lik_w)
  have G: "GWP_construct demo_lib xp_w L_w (Some uut_w) = uut_w"
    by (simp add: demo_lib_def demo_GWP_def)
  have w: "wf_array theta_w" "wf_array nu_w" "shape nu_w = shape theta_w"
    by (simp_all add: wf_array_def theta_w_def nu_w_def)
  from first_proposal_accepted [OF a b c d e f] c e w ln_eighth_bound show ?thesis
    by (simp add: fields_w lik_w [unfolded G] point_w G)
      (simp add: xp_w_def uut_w_def theta_w_def nu_w_def)
qed

section \<open>elliptical_slice: what the call may write\<close>

text \<open>
  C9. Whatever way the call ends (acceptance, exhausted iterations, or an exception),
  the observed tensor \<^verbatim>\<open>xx.S\<close> and the factor \<^verbatim>\<open>xx.L\<close> of the bundle are what they were
  before the call. Either the whole bundle is unchanged, or the loop ended by
  \<^verbatim>\<open>break\<close> on an accepted proposal and exactly the fields \<open>uut\<close>, \<open>xx\<close> and \<open>V\<close> were
  written: \<open>uut\<close> and \<open>V\<close> are written on acceptance only.
\<close>

theorem observed_tensor_and_factor_unchanged:
  "xx_S (state_after (elliptical_slice lib st prior cur_log_like variance angle_range max_iter g))
     = xx_S st
   \<and> xx_L (state_after (elliptical_slice lib st prior cur_log_like variance angle_range max_iter g))
     = xx_L st
   \<and> (state_after (elliptical_slice lib st prior cur_log_like variance angle_range max_iter g) = st
      \<or> (\<exists>it xp u w ll.
            loop_end (elliptical_slice lib st prior cur_log_like variance angle_range max_iter g)
              = Some (Broke it xp u w ll)
            \<and> outcome (elliptical_slice lib st prior cur_log_like variance angle_range max_iter g)
              = Inr (Some ll)
            \<and> state_after (elliptical_slice lib st prior cur_log_like variance angle_range
                  max_iter g)
              = st\<lparr>xx_uut := u, xx_xx := xp, xx_V := w\<rparr>))"
proof (cases rule: slice_cases [of lib st prior cur_log_like variance angle_range g max_iter])
  case (setup_err e g1)
  then show ?thesis by simp
next
  case (loop el g1 ex g2)
  then show ?thesis by (cases ex) simp_all
qed

theorem observed_tensor_and_factor_unchanged_witness:
  "xx_S (state_after (elliptical_slice demo_lib demo_state demo_theta (Some 0) 1 0 20 demo_rng))
     = demo_S
   \<and> xx_L (state_after (elliptical_slice demo_lib demo_state demo_theta (Some 0) 1 0 20 demo_rng))
     = demo_L"
  using observed_tensor_and_factor_unchanged
    [of demo_lib demo_state demo_theta "Some 0" 1 0 20 demo_rng]
  by (simp add: demo_fields)

section \<open>elliptical_slice: the rejected angle 0\<close>

lemma np_binop_error: "np_binop f a b = Inl e \<Longrightarrow> e = ValueError broadcast_msg"
  by (auto simp: np_binop_def split: option.splits)

lemma sequence_results_error:
  "sequence_results rs = Inl e \<Longrightarrow> Inl e \<in> set rs"
  by (induction rs) (auto split: sum.splits)

lemma np_dot_error: "np_dot a b = Inl e \<Longrightarrow> e = ValueError align_msg"
  by (auto simp: np_dot_def Let_def split: if_splits)

lemma sequence_dot_error:
  "sequence_results (map (\<lambda>u. np_dot u (np_T u)) us) = Inl e \<Longrightarrow> e = ValueError align_msg"
proof -
  assume "sequence_results (map (\<lambda>u. np_dot u (np_T u)) us) = Inl e"
  then have "Inl e \<in> set (map (\<lambda>u. np_dot u (np_T u)) us)" by (rule sequence_results_error)
  then obtain u where "np_dot u (np_T u) = Inl e" by auto
  then show ?thesis by (rule np_dot_error)
qed

lemma outer_products_error:
  "outer_products xp = Inl e \<Longrightarrow> (\<exists>m. e = ValueError m) \<or> (\<exists>m. e = TypeError m)"
  by (auto simp: outer_products_def subarrays_def split: sum.splits list.splits
      dest: sequence_dot_error)

lemma slice_loop_runtime_error:
  "slice_loop lib theta nu S L variance hh its phi phi_min phi_max g = (Raised (RuntimeError m), g')
     \<Longrightarrow> m = bug_msg"
proof (induction its arbitrary: phi phi_min phi_max g)
  case Nil
  then show ?case by simp
next
  case (Cons it rest)
  show ?case
  proof (cases "ellipse_point theta nu phi")
    case (Inl e)
    with Cons.prems show ?thesis
      by (auto simp: ellipse_point_def dest: np_binop_error)
  next
    case (Inr xp)
    show ?thesis
    proof (cases "outer_products xp")
      case (Inl e)
      with Cons.prems Inr show ?thesis by (auto dest: outer_products_error)
    next
      case uut: (Inr uut)
      with Cons.prems Inr show ?thesis
        by (auto simp: Let_def split: if_splits prod.splits dest: Cons.IH)
    qed
  qed
qed

lemma setup_error:
  "ellipse_setup lib st prior cur_log_like variance angle_range g = (Inl e, g1)
     \<Longrightarrow> \<exists>m. e = ValueError m"
  by (auto simp: ellipse_setup_def Let_def draw_nu_def np_reshape_def random_uniform_def
      split: sum.splits prod.splits if_splits dest: np_dot_error elim: unpack3.elims)

lemma demo_bug_run:
  "elliptical_slice demo_lib demo_state demo_theta (Some 0) 1 0 20 demo_rng =
     \<lparr>outcome = Inl (RuntimeError bug_msg), state_after = demo_state,
      rng_after = demo_rng\<lparr>n_uniform := 3\<rparr>,
      loop_end = Some (Raised (RuntimeError bug_msg))\<rparr>"
proof -
  have "[0..<nat 20] = 0 # 1 # [2..<20]" by (simp add: upt_conv_Cons)
  then show ?thesis
    using ln_half_bound
    by (simp add: elliptical_slice_def demo_setup demo_fields demo_point demo_outer demo_lik
        random_uniform_def demo_rng_sel half_tape_def)
qed

text \<open>
  C4. In the loop, a proposal at the angle \<open>phi = 0\<close> that is not above the threshold
  takes neither shrinking branch: line 111 raises the \<^verbatim>\<open>RuntimeError\<close>, at once (the
  generator is untouched). For the whole call: a \<^verbatim>\<open>RuntimeError\<close> can only be this one,
  it leaves the bundle exactly as it was before the call, and it is an exception raised
  out of the loop, not the return of the exhausted loop.
\<close>

theorem shrunk_to_current_position_raises:
  "(ellipse_point initial_theta nu 0 = Inr xp \<and> outer_products xp = Inr uut
      \<and> \<not> log_lik_frob lib S (GWP_construct lib xp L (Some uut)) variance > hh
      \<longrightarrow> slice_loop lib initial_theta nu S L variance hh (iteration # rest) 0 phi_min phi_max g0
            = (Raised (RuntimeError bug_msg), g0))
   \<and> (outcome (elliptical_slice lib st prior cur_log_like variance' angle_range max_iter g)
         = Inl (RuntimeError m)
      \<longrightarrow> m = bug_msg
          \<and> state_after (elliptical_slice lib st prior cur_log_like variance' angle_range max_iter g)
              = st
          \<and> loop_end (elliptical_slice lib st prior cur_log_like variance' angle_range max_iter g)
              = Some (Raised (RuntimeError bug_msg))
          \<and> loop_end (elliptical_slice lib st prior cur_log_like variance' angle_range max_iter g)
              \<noteq> Some Exhausted)"
proof (intro conjI impI)
  assume "ellipse_point initial_theta nu 0 = Inr xp \<and> outer_products xp = Inr uut
      \<and> \<not> log_lik_frob lib S (GWP_construct lib xp L (Some uut)) variance > hh"
  then show "slice_loop lib initial_theta nu S L variance hh (iteration # rest) 0 phi_min phi_max g0
            = (Raised (RuntimeError bug_msg), g0)"
    by (simp add: Let_def)
next
  let ?R = "elliptical_slice lib st prior cur_log_like variance' angle_range max_iter g"
  assume out: "outcome ?R = Inl (RuntimeError m)"
  have "m = bug_msg \<and> state_after ?R = st \<and> loop_end ?R = Some (Raised (RuntimeError bug_msg))"
  proof (cases rule: slice_cases [of lib st prior cur_log_like variance' angle_range g max_iter])
    case (setup_err e g1)
    with out setup_error [OF setup_err(1)] show ?thesis by auto
  next
    case (loop el g1 ex g2)
    with out have ex: "ex = Raised (RuntimeError m)" by (cases ex) simp_all
    from slice_loop_runtime_error [OF loop(2) [unfolded ex]] ex loop(3)
    show ?thesis by simp
  qed
  then show "m = bug_msg" and "state_after ?R = st"
    and "loop_end ?R = Some (Raised (RuntimeError bug_msg))" and "loop_end ?R \<noteq> Some Exhausted"
    by simp_all
qed

theorem shrunk_to_current_position_raises_witness:
  "ellipse_point demo_theta demo_theta 0 = Inr demo_theta \<and> outer_products demo_theta = Inr demo_uut
   \<and> \<not> log_lik_frob demo_lib demo_S (GWP_construct demo_lib demo_theta demo_L (Some demo_uut)) 1 > 0
   \<and> slice_loop demo_lib demo_theta demo_theta demo_S demo_L 1 0 [1, 2] 0 (- pi) pi demo_rng
       = (Raised (RuntimeError bug_msg), demo_rng)
   \<and> outcome (elliptical_slice demo_lib demo_state demo_theta (Some 0) 1 0 20 demo_rng)
       = Inl (RuntimeError bug_msg)
   \<and> state_after (elliptical_slice demo_lib demo_state demo_theta (Some 0) 1 0 20 demo_rng)
       = demo_state
   \<and> loop_end (elliptical_slice demo_lib demo_state demo_theta (Some 0) 1 0 20 demo_rng)
       = Some (Raised (RuntimeError bug_msg))"
proof -
  have a: "ellipse_point demo_theta demo_theta 0 = Inr demo_theta \<and> outer_products demo_theta = Inr demo_uut
      \<and> \<not> log_lik_frob demo_lib demo_S (GWP_construct demo_lib demo_theta demo_L (Some demo_uut)) 1 > 0"
    by (simp add: demo_point demo_outer demo_lik)
  have b: "outcome (elliptical_slice demo_lib demo_state demo_theta (Some 0) 1 0 20 demo_rng)
       = Inl (RuntimeError bug_msg)"
    by (simp add: demo_bug_run)
  from shrunk_to_current_position_raises [where initial_theta = demo_theta and nu = demo_theta
      and xp = demo_theta and uut = demo_uut and lib = demo_lib and S = demo_S and L = demo_L
      and variance = 1 and hh = 0 and iteration = 1 and rest = "[2]" and phi_min = "- pi"
      and phi_max = pi and ?g0.0 = demo_rng and st = demo_state and prior = demo_theta
      and cur_log_like = "Some 0" and variance' = 1 and angle_range = 0 and max_iter = 20
      and g = demo_rng and m = bug_msg] a b
  show ?thesis by simp
qed

section \<open>elliptical_slice: the shape of the latent tensor\<close>

text \<open>
  A prior that is accepted as the sample \<open>nu\<close> is combined with the latent tensor by
  numpy's broadcasting (line 94). When the prior has the \<open>D\<close> elements and broadcasts
  to the latent tensor's shape (as a prior of that very shape does), or is a \<open>D\<close> by \<open>D\<close>
  factor of a non-empty tensor (line 73 reshapes the draw to the tensor's shape), the
  call never raises a \<^verbatim>\<open>ValueError\<close> and the latent tensor keeps its shape.
\<close>

lemma np_binop_shape:
  "broadcast_shapes (shape a) (shape b) = Some sh \<Longrightarrow>
     \<exists>c. np_binop f a b = Inr c \<and> shape c = sh"
  by (simp add: np_binop_def)

lemma ellipse_point_shape:
  "broadcast_shapes (shape theta) (shape nu) = Some sh \<Longrightarrow>
     \<exists>xp. ellipse_point theta nu phi = Inr xp \<and> shape xp = sh"
  by (simp add: ellipse_point_def np_binop_def np_scale_def)

lemma sequence_results_Inr:
  "\<forall>r \<in> set rs. \<exists>x. r = Inr x \<Longrightarrow> \<exists>xs. sequence_results rs = Inr xs"
proof (induction rs)
  case Nil
  then show ?case by simp
next
  case (Cons r rs)
  then obtain x xs where "r = Inr x" "sequence_results rs = Inr xs" by auto
  then show ?case by simp
qed

lemma np_dot_matrix: "shape u = [p, v] \<Longrightarrow> \<exists>m. np_dot u (np_T u) = Inr m"
  by (simp add: np_dot_def np_T_def Let_def)

lemma outer_products_rank3:
  assumes "shape xp = [v, p, N]"
  shows "\<exists>uut. outer_products xp = Inr uut"
proof -
  from assms obtain us where us: "subarrays (np_T xp) = Inr us" "\<forall>u \<in> set us. shape u = [p, v]"
    by (auto simp: subarrays_def np_T_def)
  then have "\<forall>r \<in> set (map (\<lambda>u. np_dot u (np_T u)) us). \<exists>x. r = Inr x"
    by (auto dest: np_dot_matrix)
  from sequence_results_Inr [OF this]
  obtain ms where "sequence_results (map (\<lambda>u. np_dot u (np_T u)) us) = Inr ms"
    by blast
  with us show ?thesis by (simp add: outer_products_def)
qed

lemma slice_loop_shape:
  assumes "shape theta = [v, p, N]" and "broadcast_shapes (shape theta) (shape nu) = Some [v, p, N]"
  shows "slice_loop lib theta nu S L variance hh its phi phi_min phi_max g = (ex, g') \<Longrightarrow>
     (case ex of Broke it xp u w ll \<Rightarrow> shape xp = [v, p, N]
               | Exhausted \<Rightarrow> True
               | Raised e \<Rightarrow> e = RuntimeError bug_msg)"
proof (induction its arbitrary: phi phi_min phi_max g)
  case Nil
  then show ?case by auto
next
  case (Cons it rest)
  from ellipse_point_shape [OF assms(2)] obtain xp where
    xp: "ellipse_point theta nu phi = Inr xp" "shape xp = [v, p, N]" by blast
  from outer_products_rank3 [OF xp(2)] obtain uut where uut: "outer_products xp = Inr uut" by blast
  from Cons.prems xp uut show ?case
    by (auto simp: Let_def split: if_splits prod.splits dest: Cons.IH)
qed

lemma draw_nu_valid:
  assumes "shape theta = [v, p, N]"
    and "(np_size prior = v * p * N \<and> broadcast_shapes [v, p, N] (shape prior) = Some [v, p, N])
         \<or> (shape prior = [v * p * N, v * p * N] \<and> 0 < v * p * N)"
  shows "\<exists>nu g1. draw_nu theta prior (v * p * N) g = (Inr nu, g1)
           \<and> broadcast_shapes [v, p, N] (shape nu) = Some [v, p, N]"
proof (cases "np_size prior = v * p * N")
  case True
  then have nu: "draw_nu theta prior (v * p * N) g = (Inr prior, g)"
    by (simp add: draw_nu_def)
  show ?thesis
  proof (cases "broadcast_shapes [v, p, N] (shape prior) = Some [v, p, N]")
    case True
    with nu show ?thesis by simp
  next
    case False
    with assms(2) have sq: "shape prior = [v * p * N, v * p * N]" and pos: "0 < v * p * N"
      by auto
    from sq True have "v * p * N * (v * p * N) = v * p * N" by (simp add: np_size_def)
    with pos have "v * p * N = 1" by simp
    then have "v = 1" "p = 1" "N = 1" by auto
    with sq nu show ?thesis
      by (simp add: broadcast_shapes_def)
  qed
next
  case False
  with assms(2) have sq: "shape prior = [v * p * N, v * p * N]" by auto
  have "\<exists>y. np_dot (np_T prior) (fst (random_normal_size (v * p * N) g)) = Inr y \<and> shape y = [v * p * N]"
    using sq by (simp add: np_dot_def np_T_def random_normal_size_def Let_def)
  then obtain y where y: "np_dot (np_T prior) (fst (random_normal_size (v * p * N) g)) = Inr y"
    "shape y = [v * p * N]" by blast
  with False sq assms(1) show ?thesis
    by (auto simp: draw_nu_def np_reshape_def np_size_def broadcast_shapes_def broadcast_dims_same
        split: prod.splits)
qed

lemma matching_prior_keeps_shape:
  assumes "shape (xx_xx st) = [v, p, N]"
    and "(np_size prior = v * p * N \<and> broadcast_shapes [v, p, N] (shape prior) = Some [v, p, N])
         \<or> (shape prior = [v * p * N, v * p * N] \<and> 0 < v * p * N)"
  shows "shape (xx_xx (state_after (elliptical_slice lib st prior cur_log_like variance
                 angle_range max_iter g))) = [v, p, N]
       \<and> (\<forall>m. outcome (elliptical_slice lib st prior cur_log_like variance angle_range max_iter g)
                 \<noteq> Inl (ValueError m))"
proof (cases rule: slice_cases [of lib st prior cur_log_like variance angle_range g max_iter])
  case (setup_err e g1)
  from draw_nu_valid [OF assms, of g] setup_err(1) assms(1) show ?thesis
    by (auto simp: ellipse_setup_def Let_def split: prod.splits if_splits)
next
  case (loop el g1 ex g2)
  from draw_nu_valid [OF assms, of g] loop(1) assms(1)
  have "broadcast_shapes (shape (xx_xx st)) (shape (e_nu el)) = Some [v, p, N]"
    by (auto simp: ellipse_setup_def Let_def random_uniform_def split: prod.splits if_splits)
  from slice_loop_shape [OF assms(1) this loop(2)] loop(3) assms(1) show ?thesis
    by (cases ex) auto
qed

lemma flat8_no_broadcast: "ellipse_point theta8 flat8 phi = Inl (ValueError broadcast_msg)"
  by (simp add: ellipse_point_def np_binop_def np_scale_def broadcast_shapes_def theta8_def
      flat8_def np_full_def)

lemma setup8:
  "ellipse_setup demo_lib state8 flat8 (Some c) 1 0 demo_rng =
     (Inr \<lparr>e_nu = flat8, e_hh = 0.001 * ln (1 / 2) + c, e_phi = pi,
           e_phi_min = - pi, e_phi_max = pi\<rparr>,
      demo_rng\<lparr>n_uniform := 2\<rparr>)"
  by (simp add: ellipse_setup_def state8_def draw_nu_def np_size_def start_log_like_def
      random_uniform_def demo_rng_def half_tape_def theta8_def flat8_def np_full_def)

text \<open>
  C2. The claim reads: for every \<open>D\<close>-element prior sample the call returns a bundle
  whose latent tensor has the shape of the input. The source accepts a flat prior of
  shape \<open>(D,)\<close>, the one its docstring documents, through \<^verbatim>\<open>prior.size == D\<close>, but does
  not reshape it (the other branch does, line 73): for a latent tensor of shape
  \<open>(2, 2, 2)\<close> and a prior of shape \<open>(8,)\<close> the first loop iteration raises numpy's
  broadcasting \<^verbatim>\<open>ValueError\<close> at line 94, after the two uniform draws of the set-up.
\<close>

theorem flat_prior_raises_broadcast_error:
  "shape (xx_xx state8) = [2, 2, 2] \<and> shape flat8 = [2 * 2 * 2] \<and> np_size flat8 = 2 * 2 * 2
   \<and> elliptical_slice demo_lib state8 flat8 (Some 0) 1 0 20 demo_rng =
       \<lparr>outcome = Inl (ValueError broadcast_msg), state_after = state8,
        rng_after = demo_rng\<lparr>n_uniform := 2\<rparr>,
        loop_end = Some (Raised (ValueError broadcast_msg))\<rparr>"
proof -
  have "[0..<nat 20] = 0 # [1..<20]" by (simp add: upt_conv_Cons)
  moreover have "xx_xx state8 = theta8" by (simp add: state8_def)
  ultimately have "elliptical_slice demo_lib state8 flat8 (Some 0) 1 0 20 demo_rng =
       \<lparr>outcome = Inl (ValueError broadcast_msg), state_after = state8,
        rng_after = demo_rng\<lparr>n_uniform := 2\<rparr>,
        loop_end = Some (Raised (ValueError broadcast_msg))\<rparr>"
    by (simp add: elliptical_slice_def setup8 flat8_no_broadcast)
  then show ?thesis
    by (simp add: state8_def theta8_def flat8_def np_full_def np_size_def)
qed

text \<open>
  With a latent tensor of shape \<open>(2, 1, 1)\<close> the flat prior of shape \<open>(2,)\<close> does
  broadcast, to the shape \<open>(2, 1, 2)\<close>: with the collaborators of the concrete runs the
  first proposal is accepted and the bundle's latent tensor changes its shape.
\<close>

lemma flat2_point: "ellipse_point theta21 flat2 phi = Inr theta212"
  by (simp add: theta21_def flat2_def theta212_def ellipse_point_def np_binop_def np_scale_def
      broadcast_shapes_def ev)

lemma outer212: "outer_products theta212 = Inr demo_uut"
  by (simp add: theta212_def demo_uut_def outer_products_def np_T_def subarrays_def
      np_array_def np_dot_def ev)

lemma setup21:
  "ellipse_setup demo_lib state21 flat2 (Some c) 1 0 demo_rng =
     (Inr \<lparr>e_nu = flat2, e_hh = 0.001 * ln (1 / 2) + c, e_phi = pi,
           e_phi_min = - pi, e_phi_max = pi\<rparr>,
      demo_rng\<lparr>n_uniform := 2\<rparr>)"
  by (simp add: ellipse_setup_def state21_def draw_nu_def np_size_def start_log_like_def
      random_uniform_def demo_rng_def half_tape_def theta21_def flat2_def np_full_def)

lemma lik212:
  "log_lik_frob demo_lib demo_S (GWP_construct demo_lib theta212 demo_L (Some demo_uut)) 1 = - 1"
  by (simp add: demo_lib_def demo_GWP_def demo_log_lik_def demo_S_def demo_uut_def np_full_def
      eval_nat_numeral)

lemma flat_prior_changes_shape:
  "shape (xx_xx state21) = [2, 1, 1] \<and> shape flat2 = [2 * 1 * 1]
   \<and> outcome (elliptical_slice demo_lib state21 flat2 (Some (- 1)) 1 0 20 demo_rng)
        = Inr (Some (- 1))
   \<and> shape (xx_xx (state_after (elliptical_slice demo_lib state21 flat2 (Some (- 1)) 1 0 20
        demo_rng))) = [2, 1, 2]"
proof -
  have "[0..<nat 20] = 0 # [1..<20]" by (simp add: upt_conv_Cons)
  moreover have "xx_xx state21 = theta21" "xx_S state21 = demo_S" "xx_L state21 = demo_L"
    by (simp_all add: state21_def)
  ultimately have "elliptical_slice demo_lib state21 flat2 (Some (- 1)) 1 0 20 demo_rng =
       \<lparr>outcome = Inr (Some (- 1)),
        state_after = state21\<lparr>xx_uut := demo_uut, xx_xx := theta212,
           xx_V := GWP_construct demo_lib theta212 demo_L (Some demo_uut)\<rparr>,
        rng_after = demo_rng\<lparr>n_uniform := 2\<rparr>,
        loop_end = Some (Broke 0 theta212 demo_uut
           (GWP_construct demo_lib theta212 demo_L (Some demo_uut)) (- 1))\<rparr>"
    using ln_half_neg
    by (simp add: elliptical_slice_def setup21 flat2_point outer212 lik212)
  then show ?thesis
    by (simp add: state21_def theta21_def theta212_def flat2_def np_full_def)
qed

section \<open>_sample_ell_comp: the correction factor of the normal proposal\<close>

lemma norm_pdf_pos: "0 < s \<Longrightarrow> 0 < norm_pdf x loc s"
  by (simp add: norm_pdf_def)

lemma norm_pdf_sym: "norm_pdf x loc s = norm_pdf loc x s"
proof -
  have "((x - loc) / s)\<^sup>2 = ((loc - x) / s)\<^sup>2"
    by (simp add: power2_commute divide_simps)
  then show ?thesis by (simp add: norm_pdf_def)
qed

lemma demo_logp:
  "logp_ell_posterior demo_lib [x] 0 demo_S1 demo_umat 1 0 1 None = Inr (- 1 / 2 - x\<^sup>2 / 2)"
  by (simp add: logp_ell_posterior_def zeros_like_last0_def tril_assign_def tril_positions_def
      py_index_def demo_S1_def demo_umat_def demo_lib_def demo_GWP_def demo_log_lik_def
      demo_normal_loglik_def np_full_def Let_def)

lemma demo_rng1_sel:
  "uniforms demo_rng1 = half_tape" "normals demo_rng1 = one_tape"
  "n_uniform demo_rng1 = 0" "n_normal demo_rng1 = 0"
  by (simp_all add: demo_rng1_def)

text \<open>
  C7. In one call of \<^verbatim>\<open>_sample_ell_comp\<close> with a positive proposal variance, both
  normal densities are taken with the same standard deviation \<open>sqrt sigma2Lprop\<close>, so
  the factor \<^verbatim>\<open>q_tau_ast / q_ast_tau\<close> is 1, and the step returns the proposal \<open>Last\<close>
  exactly when the uniform draw is below \<open>min 1 (exp (logpLast - logpLtau))\<close>, the
  acceptance probability of a symmetric proposal. The step consumes one normal and one
  uniform draw.
\<close>

theorem normal_correction_factor_is_one:
  assumes "0 < sigma2Lprop" and "i < length Ltaug"
    and "Last = Ltaug ! i + sqrt sigma2Lprop * normals g (n_normal g)"
    and "logp_ell_posterior lib (Ltaug[i := Last]) i S umat var_err mu_prior var_prior uut
           = Inr logpLast"
    and "logp_ell_posterior lib Ltaug i S umat var_err mu_prior var_prior uut = Inr logpLtau"
  shows "norm_pdf (Ltaug ! i) Last (sqrt sigma2Lprop) / norm_pdf Last (Ltaug ! i) (sqrt sigma2Lprop)
           = 1
       \<and> sample_ell_comp lib Ltaug i sigma2Lprop S umat var_err mu_prior var_prior uut g =
           (Inr (if uniforms g (n_uniform g) < min 1 (exp (logpLast - logpLtau))
                 then Last else Ltaug ! i),
            g\<lparr>n_normal := Suc (n_normal g), n_uniform := Suc (n_uniform g)\<rparr>)"
proof -
  from assms(1) have s: "0 < sqrt sigma2Lprop" by simp
  have q: "norm_pdf (Ltaug ! i) Last (sqrt sigma2Lprop)
             / norm_pdf Last (Ltaug ! i) (sqrt sigma2Lprop) = 1"
    using norm_pdf_pos [OF s, of Last "Ltaug ! i"] norm_pdf_sym [of "Ltaug ! i" Last]
    by simp
  from s have ns: "\<not> sqrt sigma2Lprop < 0" by simp
  have "sample_ell_comp lib Ltaug i sigma2Lprop S umat var_err mu_prior var_prior uut g =
           (Inr (if uniforms g (n_uniform g) < min 1 (exp (logpLast - logpLtau))
                 then Last else Ltaug ! i),
            g\<lparr>n_normal := Suc (n_normal g), n_uniform := Suc (n_uniform g)\<rparr>)"
    unfolding sample_ell_comp_def py_index_def random_normal_def standard_normal_def
      random_uniform_def
    using assms(2) ns assms(4,5) [unfolded assms(3)] q [unfolded assms(3)]
    by (simp add: Let_def assms(3))
  with q show ?thesis by simp
qed

theorem normal_correction_factor_is_one_witness:
  "(0::real) < 1 \<and> (0::nat) < length [1::real]
   \<and> logp_ell_posterior demo_lib ([1][0 := 2]) 0 demo_S1 demo_umat 1 0 1 None = Inr (- 5 / 2)
   \<and> logp_ell_posterior demo_lib [1] 0 demo_S1 demo_umat 1 0 1 None = Inr (- 1)
   \<and> norm_pdf ([1] ! 0) 2 (sqrt 1) / norm_pdf 2 ([1] ! 0) (sqrt 1) = 1
   \<and> sample_ell_comp demo_lib [1] 0 1 demo_S1 demo_umat 1 0 1 None demo_rng1 =
       (Inr (if uniforms demo_rng1 (n_uniform demo_rng1) < min 1 (exp (- 5 / 2 - - 1))
             then 2 else [1] ! 0),
        demo_rng1\<lparr>n_normal := Suc (n_normal demo_rng1), n_uniform := Suc (n_uniform demo_rng1)\<rparr>)"
proof -
  have a: "(0::real) < 1" and b: "(0::nat) < length [1::real]" by simp_all
  have c: "(2::real) = [1] ! 0 + sqrt 1 * normals demo_rng1 (n_normal demo_rng1)"
    by (simp add: demo_rng1_sel one_tape_def)
  have d: "logp_ell_posterior demo_lib ([1][0 := 2]) 0 demo_S1 demo_umat 1 0 1 None = Inr (- 5 / 2)"
    using demo_logp [of 2] by simp
  have e: "logp_ell_posterior demo_lib [1] 0 demo_S1 demo_umat 1 0 1 None = Inr (- 1)"
    using demo_logp [of 1] by simp
  from normal_correction_factor_is_one [OF a b c d e] a b d e show ?thesis
    by simp
qed

section \<open>sample_hyper_kernel: one Metropolis-Hastings step\<close>

lemma demo_logpunorm:
  "logpunorm demo_lib demo_la w demo_t demo_umat demo_kern 1 1 =
     Inr (- ln (2 * pi) / 2 - (ln w)\<^sup>2 / 2)"
  by (simp add: logpunorm_def column_of_def demo_t_def demo_umat_def demo_kern_def demo_la_def
      tensordot_10_def np_binop_def broadcast_shapes_def np_size_def demo_lib_def
      demo_lognstat_def demo_lognormal_logpdf_def ev)

text \<open>
  C5. For a positive \<open>initial_theta\<close>, when the proposal scale \<open>sigma\<close> that \<^verbatim>\<open>lognstat\<close>
  returns is not negative and the log-posterior \<^verbatim>\<open>logpunorm\<close> can be evaluated at the
  proposal and at the current value, \<^verbatim>\<open>sample_hyper_kernel\<close> returns a pair
  \<open>(sample, accept)\<close>: \<open>accept\<close> says that the uniform draw is below
  \<open>min 1 (exp (logpzast - logpztau) * (qztauzast / qzastztau))\<close>, with \<open>qzastztau\<close> the
  log-normal density of the proposal given the current value and \<open>qztauzast\<close> the
  density of the current value given the proposal; \<open>sample\<close> is the log-normal
  proposal when \<open>accept\<close> holds and \<open>initial_theta\<close> otherwise; and \<open>sample\<close> is
  positive.
\<close>

theorem hyper_kernel_step:
  assumes "0 < initial_theta"
    and "lognstat lib initial_theta var_proposal = (mu, sigma)" and "0 \<le> sigma"
    and "proposal = exp (mu + sigma * normals g (n_normal g))"
    and "logpunorm lib la proposal t u kern mean_prior var_prior = Inr logpzast"
    and "logpunorm lib la initial_theta t u kern mean_prior var_prior = Inr logpztau"
    and "lognstat lib proposal var_proposal = (mu', sigma')"
    and "acceptance_proba = min 1 (exp (logpzast - logpztau)
            * (lognormal_pdf lib initial_theta mu' sigma' / lognormal_pdf lib proposal mu sigma))"
  shows "\<exists>sample accept.
           sample_hyper_kernel lib la initial_theta var_proposal t u kern mean_prior var_prior g =
             (Inr (sample, accept),
              g\<lparr>n_normal := Suc (n_normal g), n_uniform := Suc (n_uniform g)\<rparr>)
           \<and> 0 < sample
           \<and> accept = (uniforms g (n_uniform g) < acceptance_proba)
           \<and> sample = (if accept then proposal else initial_theta)
           \<and> (sample = proposal) = (accept \<or> proposal = initial_theta)"
proof -
  from assms(3) have ns: "\<not> sigma < 0" by simp
  from assms(4) have pos: "0 < proposal" by simp
  have "sample_hyper_kernel lib la initial_theta var_proposal t u kern mean_prior var_prior g =
      (Inr (if uniforms g (n_uniform g) < acceptance_proba then proposal else initial_theta,
            uniforms g (n_uniform g) < acceptance_proba),
       g\<lparr>n_normal := Suc (n_normal g), n_uniform := Suc (n_uniform g)\<rparr>)"
    unfolding sample_hyper_kernel_def random_lognormal_def standard_normal_def random_uniform_def
    using assms(2) ns assms(5,6,7) [unfolded assms(4)]
    by (simp add: Let_def assms(4) assms(8))
  with pos assms(1) show ?thesis by auto
qed

theorem hyper_kernel_step_witness:
  "(0::real) < 1 \<and> lognstat demo_lib 1 1 = (0, 1) \<and> (0::real) \<le> 1
   \<and> logpunorm demo_lib demo_la (exp 1) demo_t demo_umat demo_kern 1 1
        = Inr (- ln (2 * pi) / 2 - 1 / 2)
   \<and> logpunorm demo_lib demo_la 1 demo_t demo_umat demo_kern 1 1 = Inr (- ln (2 * pi) / 2)
   \<and> lognstat demo_lib (exp 1) 1 = (1, 1)
   \<and> (\<exists>sample accept.
         sample_hyper_kernel demo_lib demo_la 1 1 demo_t demo_umat demo_kern 1 1 demo_rng1 =
           (Inr (sample, accept), demo_rng1\<lparr>n_normal := 1, n_uniform := 1\<rparr>)
         \<and> 0 < sample \<and> sample = (if accept then exp 1 else 1)
         \<and> (sample = exp 1) = (accept \<or> exp 1 = (1::real)))"
proof -
  have a: "(0::real) < 1" by simp
  have b: "lognstat demo_lib 1 1 = (0, 1)" by (simp add: demo_lib_def demo_lognstat_def)
  have c: "(0::real) \<le> 1" by simp
  have d: "exp (1::real) = exp (0 + 1 * normals demo_rng1 (n_normal demo_rng1))"
    by (simp add: demo_rng1_sel one_tape_def)
  have e: "logpunorm demo_lib demo_la (exp 1) demo_t demo_umat demo_kern 1 1
        = Inr (- ln (2 * pi) / 2 - 1 / 2)"
    using demo_logpunorm [of "exp 1"] by simp
  have f: "logpunorm demo_lib demo_la 1 demo_t demo_umat demo_kern 1 1 = Inr (- ln (2 * pi) / 2)"
    using demo_logpunorm [of 1] by simp
  have h: "lognstat demo_lib (exp 1) 1 = (1, 1)" by (simp add: demo_lib_def demo_lognstat_def)
  from hyper_kernel_step [OF a b c d e f h refl] b e f h show ?thesis
    by (simp add: demo_rng1_sel)
qed

section \<open>sample_L2: the sweep over the free elements\<close>

lemma advance_0: "advance g 0 = g"
  by (simp add: advance_def)

lemma advance_advance: "advance (advance g j) k = advance g (j + k)"
  by (simp add: advance_def add.assoc)

lemma tril_assign_ok:
  assumes "shape L0 = [r, c]" and "length Lv = length (tril_positions r c)"
  shows "\<exists>L1. tril_assign L0 Lv = Inr L1"
  using assms by (simp add: tril_assign_def Let_def)

lemma logp_ok:
  assumes "zeros_like_last0 S = Inr L0" and "shape L0 = [r, c]"
    and "length Lv = length (tril_positions r c)" and "i < length Lv"
  shows "\<exists>lp. logp_ell_posterior lib Lv i S umat var_err mu_prior var_prior uut = Inr lp"
proof -
  from tril_assign_ok [OF assms(2,3)] obtain L1 where "tril_assign L0 Lv = Inr L1" by blast
  with assms(1,4) show ?thesis
    by (simp add: logp_ell_posterior_def py_index_def Let_def)
qed

lemma step_ok:
  assumes "zeros_like_last0 S = Inr L0" and "shape L0 = [r, c]"
    and "length Ltaug = length (tril_positions r c)" and "i < length Ltaug"
    and "0 \<le> sigma2Lprop"
  shows "\<exists>x. sample_ell_comp lib Ltaug i sigma2Lprop S umat var_err mu_prior var_prior uut g
           = (Inr x, advance g 1)"
proof -
  let ?Last = "Ltaug ! i + sqrt sigma2Lprop * normals g (n_normal g)"
  from assms(5) have ns: "\<not> sqrt sigma2Lprop < 0" by simp
  from logp_ok [OF assms(1,2), of "Ltaug[i := ?Last]" i lib umat var_err mu_prior var_prior uut]
    assms(3,4)
  obtain lp1 where lp1: "logp_ell_posterior lib (Ltaug[i := ?Last]) i S umat var_err mu_prior
      var_prior uut = Inr lp1" by auto
  from logp_ok [OF assms(1,2,3,4), of lib umat var_err mu_prior var_prior uut]
  obtain lp0 where lp0: "logp_ell_posterior lib Ltaug i S umat var_err mu_prior var_prior uut
      = Inr lp0" by auto
  show ?thesis
    unfolding sample_ell_comp_def py_index_def random_normal_def standard_normal_def
      random_uniform_def advance_def
    using assms(4) ns lp1 lp0
    by (simp add: Let_def)
qed


lemma take_drop_same_prefix:
  assumes "length ys = length xs" and "\<forall>i<k. ys ! i = xs ! i" and "k \<le> length xs"
  shows "take k ys @ drop k xs = xs"
proof (rule nth_equalityI)
  from assms(1,3) show "length (take k ys @ drop k xs) = length xs" by simp
next
  fix i assume "i < length (take k ys @ drop k xs)"
  with assms show "(take k ys @ drop k xs) ! i = xs ! i"
    by (cases "i < k") (simp_all add: nth_append)
qed

lemma L2_loop_inv:
  assumes S: "zeros_like_last0 S = Inr L0" "shape L0 = [r, c]"
      "length (tril_positions r c) = n"
    and lens: "n \<le> length var_proposal" "n \<le> length mu_prior" "n \<le> length var_prior"
    and nonneg: "\<forall>i<n. 0 \<le> var_proposal ! i"
  shows "k \<le> n \<Longrightarrow> length Ltau = n \<Longrightarrow> length Lp = n \<Longrightarrow>
    \<exists>Ltau' Lp'.
      L2_loop lib var_proposal S umat var_err mu_prior var_prior uut [k..<n] Ltau Lp g
        = (None, Ltau', Lp', advance g (n - k))
      \<and> length Ltau' = n \<and> length Lp' = n
      \<and> (\<forall>i<k. Ltau' ! i = Ltau ! i \<and> Lp' ! i = Lp ! i)
      \<and> (\<forall>i. k \<le> i \<and> i < n \<longrightarrow> Lp' ! i = Ltau' ! i
            \<and> sample_ell_comp lib (take i Ltau' @ drop i Ltau) i (var_proposal ! i) S umat
                  var_err (mu_prior ! i) (var_prior ! i) uut (advance g (i - k))
                = (Inr (Ltau' ! i), advance g (Suc (i - k))))"
proof (induction "n - k" arbitrary: k Ltau Lp g)
  case 0
  then have "k = n" by simp
  with 0 show ?case by (auto simp: advance_0)
next
  case (Suc d)
  then have kn: "k < n" by simp
  then have its: "[k..<n] = k # [Suc k..<n]" by (simp add: upt_conv_Cons)
  from kn nonneg have nn: "0 \<le> var_proposal ! k" by simp
  from kn Suc.prems(2) S(3) have len: "length Ltau = length (tril_positions r c)" "k < length Ltau"
    by simp_all
  from step_ok [OF S(1,2) len nn, of lib umat var_err "mu_prior ! k" "var_prior ! k" uut g]
  obtain x where x: "sample_ell_comp lib Ltau k (var_proposal ! k) S umat var_err (mu_prior ! k)
      (var_prior ! k) uut g = (Inr x, advance g 1)" by blast
  from Suc.hyps(2) have d: "d = n - Suc k" by simp
  from kn have k': "Suc k \<le> n" by simp
  from Suc.hyps(1) [OF d k', of "Ltau[k := x]" "Lp[k := x]" "advance g 1"] Suc.prems(2,3)
  obtain Ltau' Lp' where
    run: "L2_loop lib var_proposal S umat var_err mu_prior var_prior uut [Suc k..<n]
            (Ltau[k := x]) (Lp[k := x]) (advance g 1)
          = (None, Ltau', Lp', advance (advance g 1) (n - Suc k))"
    and l: "length Ltau' = n" "length Lp' = n"
    and before: "\<forall>i<Suc k. Ltau' ! i = Ltau[k := x] ! i \<and> Lp' ! i = Lp[k := x] ! i"
    and after: "\<forall>i. Suc k \<le> i \<and> i < n \<longrightarrow> Lp' ! i = Ltau' ! i
            \<and> sample_ell_comp lib (take i Ltau' @ drop i (Ltau[k := x])) i (var_proposal ! i) S
                  umat var_err (mu_prior ! i) (var_prior ! i) uut
                  (advance (advance g 1) (i - Suc k))
                = (Inr (Ltau' ! i), advance (advance g 1) (Suc (i - Suc k)))"
    by auto
  from kn have "1 + (n - Suc k) = n - k" by simp
  then have adv: "advance (advance g 1) (n - Suc k) = advance g (n - k)"
    by (simp only: advance_advance)
  have whole: "L2_loop lib var_proposal S umat var_err mu_prior var_prior uut [k..<n] Ltau Lp g
        = (None, Ltau', Lp', advance g (n - k))"
    using its kn lens x run adv by (simp add: py_index_def)
  have pre: "\<forall>i<k. Ltau' ! i = Ltau ! i \<and> Lp' ! i = Lp ! i"
    using before by auto
  have atk: "Ltau' ! k = x" "Lp' ! k = x"
    using before kn Suc.prems(2,3) by auto
  have same: "take k Ltau' @ drop k Ltau = Ltau"
    using take_drop_same_prefix [of Ltau' Ltau k] l(1) Suc.prems(1,2) pre by simp
  have post: "\<forall>i. k \<le> i \<and> i < n \<longrightarrow> Lp' ! i = Ltau' ! i
            \<and> sample_ell_comp lib (take i Ltau' @ drop i Ltau) i (var_proposal ! i) S umat
                  var_err (mu_prior ! i) (var_prior ! i) uut (advance g (i - k))
                = (Inr (Ltau' ! i), advance g (Suc (i - k)))"
  proof (intro allI impI)
    fix i assume i: "k \<le> i \<and> i < n"
    show "Lp' ! i = Ltau' ! i
            \<and> sample_ell_comp lib (take i Ltau' @ drop i Ltau) i (var_proposal ! i) S umat
                  var_err (mu_prior ! i) (var_prior ! i) uut (advance g (i - k))
                = (Inr (Ltau' ! i), advance g (Suc (i - k)))"
    proof (cases "i = k")
      case True
      with atk same x show ?thesis by (simp add: advance_0)
    next
      case False
      with i have ik: "Suc k \<le> i" "i < n" by simp_all
      then have dr: "drop i (Ltau[k := x]) = drop i Ltau" by simp
      from ik have "1 + (i - Suc k) = i - k" "1 + Suc (i - Suc k) = Suc (i - k)" by simp_all
      then have a1: "advance (advance g 1) (i - Suc k) = advance g (i - k)"
        and a2: "advance (advance g 1) (Suc (i - Suc k)) = advance g (Suc (i - k))"
        by (simp_all only: advance_advance)
      from after ik
      have "Lp' ! i = Ltau' ! i
            \<and> sample_ell_comp lib (take i Ltau' @ drop i (Ltau[k := x])) i (var_proposal ! i) S
                  umat var_err (mu_prior ! i) (var_prior ! i) uut
                  (advance (advance g 1) (i - Suc k))
                = (Inr (Ltau' ! i), advance (advance g 1) (Suc (i - Suc k)))"
        by blast
      then show ?thesis unfolding dr a1 a2 .
    qed
  qed
  from whole l pre post show ?case by blast
qed

text \<open>
  C6. For an observed tensor whose slices are \<open>r\<close> by \<open>c\<close> matrices, a vector \<open>Ltau\<close>
  with one element per position on or below the diagonal, and per-element proposal
  variances that are not negative, \<^verbatim>\<open>sample_L2\<close> returns a vector \<open>res\<close> of the length of
  \<open>Ltau\<close>, and has written it into \<open>Ltau\<close> too. The steps run one after the other in
  index order: step \<open>i\<close> takes the \<open>i\<close>-th normal and the \<open>i\<close>-th uniform draw, and it is
  \<^verbatim>\<open>_sample_ell_comp\<close> applied to the vector whose elements before \<open>i\<close> are already the
  new ones (\<open>take i res\<close>) and whose other elements are still the old ones
  (\<open>drop i Ltau\<close>); its result is \<open>res ! i\<close>.
\<close>

theorem sample_L2_sequential:
  assumes "zeros_like_last0 S = Inr L0" and "shape L0 = [r, c]"
    and "length (tril_positions r c) = length Ltau"
    and "length Ltau \<le> length var_proposal" and "length Ltau \<le> length mu_prior"
    and "length Ltau \<le> length var_prior"
    and "\<forall>i<length Ltau. 0 \<le> var_proposal ! i"
  shows "\<exists>res.
      sample_L2 lib Ltau var_proposal S umat var_err mu_prior var_prior uut g =
        \<lparr>returned = Inr res, Ltau_after = res, gen_after = advance g (length Ltau)\<rparr>
      \<and> length res = length Ltau
      \<and> (\<forall>i<length Ltau.
            sample_ell_comp lib (take i res @ drop i Ltau) i (var_proposal ! i) S umat var_err
                (mu_prior ! i) (var_prior ! i) uut (advance g i)
              = (Inr (res ! i), advance g (Suc i)))"
proof -
  let ?n = "length Ltau"
  from L2_loop_inv [OF assms, of 0 Ltau "replicate ?n 0" lib umat var_err uut g]
  obtain Ltau' Lp' where
    run: "L2_loop lib var_proposal S umat var_err mu_prior var_prior uut [0..<?n] Ltau
            (replicate ?n 0) g = (None, Ltau', Lp', advance g ?n)"
    and l: "length Ltau' = ?n" "length Lp' = ?n"
    and post: "\<forall>i. i < ?n \<longrightarrow> Lp' ! i = Ltau' ! i
            \<and> sample_ell_comp lib (take i Ltau' @ drop i Ltau) i (var_proposal ! i) S umat
                  var_err (mu_prior ! i) (var_prior ! i) uut (advance g i)
                = (Inr (Ltau' ! i), advance g (Suc i))"
    by auto
  from l post have eq: "Lp' = Ltau'" by (auto intro: nth_equalityI)
  from run eq have "sample_L2 lib Ltau var_proposal S umat var_err mu_prior var_prior uut g =
        \<lparr>returned = Inr Ltau', Ltau_after = Ltau', gen_after = advance g ?n\<rparr>"
    by (simp add: sample_L2_def Let_def)
  with l post show ?thesis by blast
qed

theorem sample_L2_sequential_witness:
  "zeros_like_last0 demo_S2 = Inr (np_full [2, 2] 0) \<and> shape (np_full [2, 2] 0) = [2, 2]
   \<and> length (tril_positions 2 2) = length [1, 0, 1 :: real]
   \<and> length [1, 0, 1 :: real] \<le> length [1, 1, 1 :: real]
   \<and> length [1, 0, 1 :: real] \<le> length [0, 0, 0 :: real]
   \<and> 0 \<le> [1, 1, 1 :: real] ! 0 \<and> 0 \<le> [1, 1, 1 :: real] ! 1 \<and> 0 \<le> [1, 1, 1 :: real] ! 2
   \<and> (\<exists>res.
        sample_L2 demo_lib [1, 0, 1] [1, 1, 1] demo_S2 demo_umat 1 [0, 0, 0] [1, 1, 1] None
            demo_rng1 =
          \<lparr>returned = Inr res, Ltau_after = res, gen_after = advance demo_rng1 3\<rparr>
        \<and> length res = 3)"
proof -
  have a: "zeros_like_last0 demo_S2 = Inr (np_full [2, 2] 0)"
    by (simp add: zeros_like_last0_def demo_S2_def np_full_def)
  have b: "shape (np_full [2, 2] 0) = [2, 2]" by (simp add: np_full_def)
  have c: "length (tril_positions 2 2) = length [1, 0, 1 :: real]"
    by (simp add: tril_positions_def eval_nat_numeral upt_conv_Cons)
  have d: "length [1, 0, 1 :: real] \<le> length [1, 1, 1 :: real]"
    and e: "length [1, 0, 1 :: real] \<le> length [0, 0, 0 :: real]" by simp_all
  have f: "\<forall>i<length [1, 0, 1 :: real]. 0 \<le> [1, 1, 1 :: real] ! i"
    by (simp add: nth_Cons split: nat.split)
  have n3: "Suc (Suc (Suc 0)) = 3" by simp
  from sample_L2_sequential [OF a b c d e d f, of demo_lib demo_umat 1 None demo_rng1] a b c f
  show ?thesis by (auto simp: n3)
qed

end
